theory Spec2Isabelle
  imports Complex_Main
begin

section \<open>JavaScript values\<close>

text \<open>
  A JavaScript number is modelled as a real. Fields that may be \<^verbatim>\<open>undefined\<close> are
  \<open>real option\<close> (\<open>None\<close> is \<^verbatim>\<open>undefined\<close>). Damage amounts, where the source guards
  against \<^verbatim>\<open>NaN\<close> with \<^verbatim>\<open>|| 0\<close>, are a real or \<open>NaN\<close>. Infinities are not
  modelled. The sums and differences of attribute values are rounded to a double
  (\<open>js_plus\<close>, \<open>js_minus\<close> below); the arithmetic of \<^verbatim>\<open>EffectList\<close> on counters and
  timestamps is left exact.
\<close>

datatype jsnum = NaN | Num real

text \<open>\<^verbatim>\<open>Math.max(a, b)\<close>: \<^verbatim>\<open>NaN\<close> as soon as one argument is.\<close>

fun js_max :: "jsnum \<Rightarrow> jsnum \<Rightarrow> jsnum" where
  "js_max (Num a) (Num b) = Num (max a b)"
| "js_max _ _ = NaN"

text \<open>\<^verbatim>\<open>a || d\<close> on numbers: \<^verbatim>\<open>NaN\<close> and \<^verbatim>\<open>0\<close> are falsy.\<close>

fun js_or :: "jsnum \<Rightarrow> jsnum \<Rightarrow> jsnum" where
  "js_or NaN d = d"
| "js_or (Num a) d = (if a = 0 then d else Num a)"

text \<open>\<^verbatim>\<open>Math.floor(a)\<close>.\<close>

fun js_floor :: "jsnum \<Rightarrow> jsnum" where
  "js_floor NaN = NaN"
| "js_floor (Num a) = Num (of_int \<lfloor>a\<rfloor>)"

text \<open>Truthiness of a possibly undefined number, and \<^verbatim>\<open>v || d\<close> on it.\<close>

definition truthy :: "real option \<Rightarrow> bool" where
  "truthy v = (case v of None \<Rightarrow> False | Some x \<Rightarrow> x \<noteq> 0)"

definition or_num :: "real option \<Rightarrow> real \<Rightarrow> real" where
  "or_num v d = (case v of None \<Rightarrow> d | Some x \<Rightarrow> if x = 0 then d else x)"

text \<open>
  \<^verbatim>\<open>x + y\<close> and \<^verbatim>\<open>x - y\<close> on doubles: the exact result rounded to the nearest double,
  ties to the even significand. A double has a significand of 53 bits; the doubles
  around \<open>x\<close> are the multiples of \<open>double_ulp x\<close>, with the spacing of the subnormal
  range as the smallest. Beyond \<open>max_double\<close>, the largest double, the source gives an
  infinity, which is not modelled: \<open>to_double\<close> stands for the rounding of results up to
  \<open>max_double\<close> in absolute value.
\<close>

definition round_even :: "real \<Rightarrow> int" where
  "round_even y =
     (let n = \<lfloor>y\<rfloor>; r = y - of_int n in
      if r < 1 / 2 then n else if 1 / 2 < r then n + 1 else if even n then n else n + 1)"

definition double_ulp :: "real \<Rightarrow> real" where
  "double_ulp x = 2 powr of_int (max (\<lfloor>log 2 \<bar>x\<bar>\<rfloor> - 52) (- 1074))"

definition to_double :: "real \<Rightarrow> real" where
  "to_double x = (if x = 0 then 0 else double_ulp x * of_int (round_even (x / double_ulp x)))"

definition js_plus :: "real \<Rightarrow> real \<Rightarrow> real" where
  "js_plus x y = to_double (x + y)"

definition js_minus :: "real \<Rightarrow> real \<Rightarrow> real" where
  "js_minus x y = to_double (x - y)"

text \<open>A sum that the source computes exactly: it is not rounded and does not overflow.\<close>

definition max_double :: real where
  "max_double = 2 ^ 1024 - 2 ^ 971"

definition exact_sum :: "real \<Rightarrow> real \<Rightarrow> bool" where
  "exact_sum x y = (js_plus x y = x + y \<and> \<bar>x + y\<bar> \<le> max_double)"

datatype error =
    AlreadyHasTarget   \<comment> \<open>\<^verbatim>\<open>Error('Cannot add effect, already has a target.')\<close>\<close>
  | ReferenceError     \<comment> \<open>\<^verbatim>\<open>remove\<close> of an effect that is not a member\<close>
  | RangeError         \<comment> \<open>\<^verbatim>\<open>Entity does not have attribute\<close>\<close>
  | InvalidAttribute   \<comment> \<open>\<^verbatim>\<open>Error(`Invalid attribute ...`)\<close>\<close>
  | InvalidBase        \<comment> \<open>\<^verbatim>\<open>Invalid base value given to attributes\<close>\<close>
  | UnknownAttribute   \<comment> \<open>\<^verbatim>\<open>Entity trying to hydrate with invalid attribute\<close>\<close>
  | TypeError          \<comment> \<open>\<^verbatim>\<open>'base' in attrConfig\<close> on \<^verbatim>\<open>null\<close>\<close>
  | NoDefinition       \<comment> \<open>the effect registry has no definition for an id\<close>
  | Diverges           \<comment> \<open>the recursion over formula dependencies did not end\<close>

section \<open>Effects\<close>

text \<open>
  \<^verbatim>\<open>tickInterval\<close> is \<^verbatim>\<open>number | boolean\<close>; \<^verbatim>\<open>EffectList.emit\<close> tells the two apart
  with \<^verbatim>\<open>typeof\<close>.
\<close>

datatype tickInterval = TickBool bool | TickNum real

record config =
  type :: string
  maxStacks :: real
  refreshes :: bool
  unique :: bool
  persists :: bool
  tickInterval :: tickInterval

record effect_state =
  stacks :: "real option"
  lastTick :: "real option"
  ticks :: "real option"

text \<open>
  An effect object, with the fields \<^verbatim>\<open>EffectList\<close> reads and writes. \<open>paused\<close> is what
  \<^verbatim>\<open>effect.paused\<close> reads; \<open>target\<close> is the owning entity (a reference, here a number) once
  the effect is attached. Objects are compared by value: two members of a list with
  equal fields stand for two objects that no operation of the list tells apart.
\<close>

record effect =
  effect_id :: string
  config :: config
  state :: effect_state
  paused :: bool
  target :: "nat option"

text \<open>
  The class \<^verbatim>\<open>Effect\<close> is not among the sources. Its methods that \<^verbatim>\<open>EffectList\<close> calls
  are parameters, collected in one record; \<open>'d\<close> is the type of \<^verbatim>\<open>Damage\<close> objects.
\<close>

record 'd effect_class =
  isCurrent :: "effect \<Rightarrow> bool"
  modifyAttribute :: "effect \<Rightarrow> string \<Rightarrow> real \<Rightarrow> real"
  modifyIncomingDamage :: "effect \<Rightarrow> 'd \<Rightarrow> jsnum \<Rightarrow> jsnum"
  modifyOutgoingDamage :: "effect \<Rightarrow> 'd \<Rightarrow> jsnum \<Rightarrow> jsnum"

section \<open>EffectList\<close>

text \<open>
  \<^verbatim>\<open>this.effects\<close> is a \<^verbatim>\<open>Set<Effect>\<close>, iterated in insertion order: a list.

  \<^verbatim>\<open>remove(effect)\<close>: raises when the effect is not a member, else deletes it.
\<close>

definition remove :: "effect \<Rightarrow> effect list \<Rightarrow> error + effect list" where
  "remove effect effs =
     (if effect \<notin> set effs then Inl ReferenceError else Inr (remove1 effect effs))"

text \<open>
  \<^verbatim>\<open>validateEffects()\<close>: every member that is not current goes through \<^verbatim>\<open>remove\<close>,
  which cannot raise there, the effect being a member. The removal notifies the
  target, whose \<^verbatim>\<open>emit\<close> relays into the list and validates again; the nested pass
  removes members the outer loop would have removed next, so the members left are
  the current ones either way.
\<close>

fun validateEffects :: "'d effect_class \<Rightarrow> effect list \<Rightarrow> effect list" where
  "validateEffects E [] = []"
| "validateEffects E (effect # rest) =
     (if \<not> isCurrent E effect then validateEffects E rest
      else effect # validateEffects E rest)"

text \<open>\<^verbatim>\<open>get size()\<close> and \<^verbatim>\<open>entries()\<close>: the list after validation, and what is returned.\<close>

definition size_effects :: "'d effect_class \<Rightarrow> effect list \<Rightarrow> effect list \<times> nat" where
  "size_effects E effs = (let effs' = validateEffects E effs in (effs', length effs'))"

definition entries :: "'d effect_class \<Rightarrow> effect list \<Rightarrow> effect list \<times> effect list" where
  "entries E effs = (let effs' = validateEffects E effs in (effs', effs'))"

text \<open>\<^verbatim>\<open>getByType(type)\<close> and \<^verbatim>\<open>hasEffectType(type)\<close> read \<^verbatim>\<open>this.effects\<close> as it is.\<close>

definition getByType :: "effect list \<Rightarrow> string \<Rightarrow> effect option" where
  "getByType effs ty = find (\<lambda>effect. type (config effect) = ty) effs"

definition hasEffectType :: "effect list \<Rightarrow> string \<Rightarrow> bool" where
  "hasEffectType effs ty = (getByType effs ty \<noteq> None)"

subsection \<open>add\<close>

text \<open>\<^verbatim>\<open>JSON.parse(JSON.stringify(effect.state))\<close>: a copy with the same fields.\<close>

definition deep_clone :: "effect_state \<Rightarrow> effect_state" where
  "deep_clone s = \<lparr>stacks = stacks s, lastTick = lastTick s, ticks = ticks s\<rparr>"

text \<open>
  The condition of the stacking branch,
  \<^verbatim>\<open>(maxStacks && state.stacks) || 0 < maxStacks\<close>.
\<close>

definition stack_cond :: "effect \<Rightarrow> bool" where
  "stack_cond activeEffect =
     ((maxStacks (config activeEffect) \<noteq> 0 \<and> truthy (stacks (state activeEffect)))
      \<or> 0 < maxStacks (config activeEffect))"

text \<open>
  The assignment of the stacking branch,
  \<^verbatim>\<open>Math.min(maxStacks, state.stacks || 0 + 1)\<close>; \<^verbatim>\<open>+\<close> binds tighter than \<^verbatim>\<open>||\<close>.
\<close>

definition stack_added :: "effect \<Rightarrow> effect" where
  "stack_added activeEffect =
     activeEffect\<lparr>state := (state activeEffect)
       \<lparr>stacks := Some (min (maxStacks (config activeEffect))
                            (or_num (stacks (state activeEffect)) (0 + 1)))\<rparr>\<rparr>"

text \<open>
  The loop of \<^verbatim>\<open>add\<close> over the active effects. \<open>Some (r, effs)\<close> when the loop returns
  \<open>r\<close> from inside, \<open>None\<close> when it runs to its end.
\<close>

fun add_scan :: "effect \<Rightarrow> effect list \<Rightarrow> (bool \<times> effect list) option" where
  "add_scan effect [] = None"
| "add_scan effect (activeEffect # rest) =
     (if type (config effect) = type (config activeEffect) then
        (if stack_cond activeEffect then Some (True, stack_added activeEffect # rest)
         else if refreshes (config activeEffect) then Some (True, activeEffect # rest)
         else if unique (config activeEffect) then Some (False, activeEffect # rest)
         else map_option (\<lambda>(r, effs). (r, activeEffect # effs)) (add_scan effect rest))
      else map_option (\<lambda>(r, effs). (r, activeEffect # effs)) (add_scan effect rest))"

text \<open>
  \<^verbatim>\<open>add(effect)\<close> on the list of the entity \<open>tgt\<close>. After an insertion the target is told
  (\<^verbatim>\<open>this.target.emit('effectAdded', effect)\<close>); \<^verbatim>\<open>EffectableEntity.emit\<close> relays the
  event into this list, whose \<^verbatim>\<open>emit\<close> validates the members and returns.
\<close>

definition add :: "'d effect_class \<Rightarrow> nat \<Rightarrow> effect \<Rightarrow> effect list \<Rightarrow> error + bool \<times> effect list" where
  "add E tgt effect effs =
     (if target effect \<noteq> None then Inl AlreadyHasTarget
      else
        let effect' = effect\<lparr>state := deep_clone (state effect)\<rparr> in
        case add_scan effect' effs of
          Some r \<Rightarrow> Inr r
        | None \<Rightarrow> Inr (True, validateEffects E (effs @ [effect'\<lparr>target := Some tgt\<rparr>])))"

text \<open>Calling \<^verbatim>\<open>add\<close> for each effect of a sequence, as the loop of \<^verbatim>\<open>hydrate\<close> does.\<close>

fun add_all :: "'d effect_class \<Rightarrow> nat \<Rightarrow> effect list \<Rightarrow> effect list \<Rightarrow> error + effect list" where
  "add_all E tgt [] effs = Inr effs"
| "add_all E tgt (effect # others) effs =
     (case add E tgt effect effs of
        Inl err \<Rightarrow> Inl err
      | Inr (r, effs') \<Rightarrow> add_all E tgt others effs')"

text \<open>
  \<open>fires a\<close>: one of the three rules of \<^verbatim>\<open>add\<close> applies to the member \<open>a\<close> when an effect
  of its type is added. A list is well stacked when a member that fires is the last
  of its type. The empty list is, and \<^verbatim>\<open>add\<close> and \<^verbatim>\<open>emit\<close> keep a list so: after a
  member that fires, \<^verbatim>\<open>add\<close> inserts no effect of its type.
\<close>

definition fires :: "effect \<Rightarrow> bool" where
  "fires activeEffect =
     (stack_cond activeEffect \<or> refreshes (config activeEffect) \<or> unique (config activeEffect))"

fun well_stacked :: "effect list \<Rightarrow> bool" where
  "well_stacked [] = True"
| "well_stacked (a # rest) =
     ((if fires a then list_all (\<lambda>m. type (config m) \<noteq> type (config a)) rest else True)
      \<and> well_stacked rest)"

subsection \<open>emit\<close>

text \<open>
  One turn of the loop of \<^verbatim>\<open>emit\<close> at the time \<open>now\<close> (\<^verbatim>\<open>Date.now()\<close>, milliseconds):
  the effect afterwards, and whether \<^verbatim>\<open>effect.emit(event, ...args)\<close> was reached.
\<close>

definition emit_one :: "real \<Rightarrow> string \<Rightarrow> effect \<Rightarrow> effect \<times> bool" where
  "emit_one now event effect =
     (if paused effect then (effect, False)
      else case (event = ''updateTick'', tickInterval (config effect)) of
        (True, TickNum n) \<Rightarrow>
          (let sinceLastTick = now - or_num (ticks (state effect)) 0 in
           if sinceLastTick < n * 1000 then (effect, False)
           else
             (effect\<lparr>state := (state effect)
                \<lparr>lastTick := Some now,
                 ticks := (if truthy (ticks (state effect))
                           then map_option (\<lambda>t. t + 1) (ticks (state effect))
                           else ticks (state effect))\<rparr>\<rparr>, True))
      | _ \<Rightarrow> (effect, True))"

text \<open>
  \<^verbatim>\<open>emit(event, ...args)\<close>: the list afterwards and the effects the event was delivered
  to, in order, as they are at delivery.
\<close>

definition emit :: "'d effect_class \<Rightarrow> real \<Rightarrow> string \<Rightarrow> effect list \<Rightarrow> effect list \<times> effect list" where
  "emit E now event effs =
     (let effs' = validateEffects E effs in
      if event = ''effectAdded'' \<or> event = ''effectRemoved'' then (effs', [])
      else
        let rs = map (emit_one now event) effs' in
        (map fst rs, map fst (filter snd rs)))"

subsection \<open>Evaluation folds\<close>

definition evaluateIncomingDamage ::
  "'d effect_class \<Rightarrow> effect list \<Rightarrow> 'd \<Rightarrow> jsnum \<Rightarrow> effect list \<times> jsnum" where
  "evaluateIncomingDamage E effs damage currentAmount =
     (let effs' = validateEffects E effs;
          amount = fold (\<lambda>effect a. modifyIncomingDamage E effect damage a) effs' currentAmount
      in (effs', js_or (js_max amount (Num 0)) (Num 0)))"

definition evaluateOutgoingDamage ::
  "'d effect_class \<Rightarrow> effect list \<Rightarrow> 'd \<Rightarrow> jsnum \<Rightarrow> effect list \<times> jsnum" where
  "evaluateOutgoingDamage E effs damage currentAmount =
     (let effs' = validateEffects E effs;
          amount = fold (\<lambda>effect a. modifyOutgoingDamage E effect damage a) effs' currentAmount
      in (effs', js_or (js_max amount (Num 0)) (Num 0)))"

text \<open>
  \<^verbatim>\<open>evaluateAttribute(attr)\<close>, on the name and the base of the attribute: the fold starts
  from \<^verbatim>\<open>attr.base || 0\<close> and skips paused effects.
\<close>

definition evaluateAttribute ::
  "'d effect_class \<Rightarrow> effect list \<Rightarrow> string \<Rightarrow> real \<Rightarrow> effect list \<times> real" where
  "evaluateAttribute E effs attrName attrBase =
     (let effs' = validateEffects E effs;
          attrValue = or_num (Some attrBase) 0
      in (effs', fold (\<lambda>effect v. if paused effect then v
                                    else modifyAttribute E effect attrName v) effs' attrValue))"

subsection \<open>serialize and hydrate\<close>

text \<open>
  Modelled from the spec: the persisted shape of an effect,
  \<^verbatim>\<open>{id: string, state: object}\<close>; the class \<^verbatim>\<open>Effect\<close> that produces it is missing from
  the sources.
\<close>

record effect_data =
  data_id :: string
  data_state :: effect_state

text \<open>
  Modelled from the spec: \<^verbatim>\<open>Effect.serialize()\<close>, missing from the sources. The persisted
  entry of an effect is its id and its state.
\<close>

definition serialize_effect :: "effect \<Rightarrow> effect_data" where
  "serialize_effect effect = \<lparr>data_id = effect_id effect, data_state = state effect\<rparr>"

text \<open>
  Modelled from the spec: \<^verbatim>\<open>Effect.hydrate(state, data)\<close>, missing from the sources. It
  puts the persisted state onto the instance.
\<close>

definition hydrate_effect :: "effect \<Rightarrow> effect_data \<Rightarrow> effect" where
  "hydrate_effect effect newEffect = effect\<lparr>state := data_state newEffect\<rparr>"

text \<open>
  Modelled from the spec: the effect-definition registry \<^verbatim>\<open>EffectFactory\<close>, missing from
  the sources. It maps an id to its definition; \<^verbatim>\<open>create(id)\<close> hands out a fresh, detached
  instance of the definition, or nothing for an unknown id.
\<close>

definition create_effect :: "(string \<rightharpoonup> effect) \<Rightarrow> string \<Rightarrow> effect option" where
  "create_effect registry ident =
     map_option (\<lambda>defn. defn\<lparr>effect_id := ident, target := None\<rparr>) (registry ident)"

text \<open>\<^verbatim>\<open>EffectList.serialize()\<close>: the list after validation, and the persisted entries.\<close>

definition serialize :: "'d effect_class \<Rightarrow> effect list \<Rightarrow> effect list \<times> effect_data list" where
  "serialize E effs =
     (let effs' = validateEffects E effs in
      (effs', map serialize_effect (filter (\<lambda>effect. persists (config effect)) effs')))"

text \<open>
  \<^verbatim>\<open>EffectList.hydrate(state)\<close>: the loop over the persisted entries the list was built
  with, adding to the list \<open>effs\<close> (empty at the start).
\<close>

fun hydrate :: "'d effect_class \<Rightarrow> (string \<rightharpoonup> effect) \<Rightarrow> nat \<Rightarrow> effect_data list \<Rightarrow> effect list
    \<Rightarrow> error + effect list" where
  "hydrate E registry tgt [] effs = Inr effs"
| "hydrate E registry tgt (newEffect # rest) effs =
     (case create_effect registry (data_id newEffect) of
        None \<Rightarrow> Inl NoDefinition
      | Some effect \<Rightarrow>
          (case add E tgt (hydrate_effect effect newEffect) effs of
             Inl err \<Rightarrow> Inl err
           | Inr (r, effs') \<Rightarrow> hydrate E registry tgt rest effs'))"

section \<open>Attributes\<close>

text \<open>
  Modelled from the spec: the class \<^verbatim>\<open>Attribute\<close>, missing from the sources. An attribute
  has a name, a base, a delta (a signed offset of the current value from the maximum)
  and an optional formula.
\<close>

record attribute_values =
  name :: string
  base :: real
  delta :: real

text \<open>
  A raw attribute value of the entity data, as \<^verbatim>\<open>EffectableEntity.hydrate\<close> tells them
  apart: a number, an object, \<^verbatim>\<open>null\<close>, or anything else.
\<close>

datatype attribute_config =
    AttrNumber real
  | AttrObject "real option" "real option"   \<comment> \<open>\<^verbatim>\<open>base\<close> and \<^verbatim>\<open>delta\<close>, when present\<close>
  | AttrNull
  | AttrOther

text \<open>
  What a formula can read of the entity it is handed (\<^verbatim>\<open>this\<close> in \<^verbatim>\<open>getMaxAttribute\<close>): the
  data of the entity, field by field as in the record of the entity below, with the
  attributes as their values. The formulas of the attributes are not part of it: a
  formula cannot take an argument that holds formulas of its own type.
\<close>

record entity_view =
  view_ref :: nat
  view_attributes :: "(string \<times> attribute_values) list"
  view_raw_attributes :: "(string \<times> attribute_config) list"
  view_effects :: "effect list"
  view_raw_effects :: "effect_data list"
  view_hydrated :: bool

text \<open>
  Modelled from the spec: the class \<^verbatim>\<open>AttributeFormula\<close>, missing from the sources. The
  names of the attributes the formula requires, and a function of the attribute
  itself, the entity, the current value and the values of the required attributes,
  in the order \<^verbatim>\<open>getMaxAttribute\<close> passes them.
\<close>

record formula =
  requires :: "string list"
  evaluate :: "attribute_values \<Rightarrow> entity_view \<Rightarrow> real \<Rightarrow> real list \<Rightarrow> real"

record attribute = attribute_values +
  formula :: "formula option"

text \<open>
  Modelled from the spec: \<^verbatim>\<open>Attribute.raise\<close>, \<^verbatim>\<open>lower\<close>, \<^verbatim>\<open>setBase\<close> and \<^verbatim>\<open>setDelta\<close>, missing
  from the sources. Raising and lowering move the delta by the amount, with the
  addition and subtraction of doubles, and never touch the base; the setters overwrite.
\<close>

definition raise :: "attribute \<Rightarrow> real \<Rightarrow> attribute" where
  "raise attr amount = attr\<lparr>delta := js_plus (delta attr) amount\<rparr>"

definition lower :: "attribute \<Rightarrow> real \<Rightarrow> attribute" where
  "lower attr amount = attr\<lparr>delta := js_minus (delta attr) amount\<rparr>"

definition setBase :: "attribute \<Rightarrow> real \<Rightarrow> attribute" where
  "setBase attr newBase = attr\<lparr>base := newBase\<rparr>"

definition setDelta :: "attribute \<Rightarrow> real \<Rightarrow> attribute" where
  "setDelta attr amount = attr\<lparr>delta := amount\<rparr>"

text \<open>
  Modelled from the spec: the class \<^verbatim>\<open>Attributes\<close>, missing from the sources. It maps
  names to attributes, here an association list in insertion order, looked up with
  \<open>map_of\<close>; \<^verbatim>\<open>serialize()\<close> gives \<^verbatim>\<open>{name: {base, delta}}\<close>.
\<close>

definition serialize_attributes :: "(string \<times> attribute) list \<Rightarrow> (string \<times> attribute_config) list" where
  "serialize_attributes attrs =
     map (\<lambda>(attrName, attr). (attrName, AttrObject (Some (base attr)) (Some (delta attr)))) attrs"

text \<open>
  Modelled from the spec: \<^verbatim>\<open>Attributes.add(attribute)\<close>, missing from the sources. The
  entry under the attribute's name is set.
\<close>

fun add_attribute :: "attribute \<Rightarrow> (string \<times> attribute) list \<Rightarrow> (string \<times> attribute) list" where
  "add_attribute attr [] = [(name attr, attr)]"
| "add_attribute attr ((k, v) # rest) =
     (if k = name attr then (k, attr) # rest else (k, v) # add_attribute attr rest)"

text \<open>
  Modelled from the spec: the attribute-definition registry \<^verbatim>\<open>AttributeFactory\<close>, missing
  from the sources. \<open>None\<close> for an unknown name (\<^verbatim>\<open>has(name)\<close> is false), else the formula of
  the definition, if it has one; \<^verbatim>\<open>create(name, base, delta)\<close> builds the attribute.
\<close>

definition create_attribute ::
  "(string \<rightharpoonup> formula option) \<Rightarrow> string \<Rightarrow> real \<Rightarrow> real \<Rightarrow> attribute" where
  "create_attribute registry attrName b d =
     \<lparr>name = attrName, base = b, delta = d,
      formula = (case registry attrName of None \<Rightarrow> None | Some f \<Rightarrow> f)\<rparr>"

section \<open>EffectableEntity\<close>

text \<open>The registries of the game state that hydration uses.\<close>

record game_state =
  AttributeFactory :: "string \<rightharpoonup> formula option"
  EffectFactory :: "string \<rightharpoonup> effect"

text \<open>The data an entity is constructed from, and the data it serializes to.\<close>

record entity_data =
  data_attributes :: "(string \<times> attribute_config) list"
  data_effects :: "effect_data list"

text \<open>
  The entity. \<open>ref\<close> stands for the object itself, the target of its effects.
  \<open>raw_attributes\<close> is \<^verbatim>\<open>__attributes\<close>; \<open>raw_effects\<close> is what the effect list holds
  between construction and hydration, the persisted entries.
\<close>

record entity =
  ref :: nat
  attributes :: "(string \<times> attribute) list"
  raw_attributes :: "(string \<times> attribute_config) list"
  effects :: "effect list"
  raw_effects :: "effect_data list"
  hydrated :: bool

text \<open>The data of an entity, as its formulas see it.\<close>

definition view :: "entity \<Rightarrow> entity_view" where
  "view ent =
     \<lparr>view_ref = ref ent,
      view_attributes = map (\<lambda>(k, a). (k, attribute_values.truncate a)) (attributes ent),
      view_raw_attributes = raw_attributes ent,
      view_effects = effects ent,
      view_raw_effects = raw_effects ent,
      view_hydrated = hydrated ent\<rparr>"

text \<open>
  The constructor. The source hands \<^verbatim>\<open>data.effects\<close> to the effect list, whose set holds
  these raw entries until \<^verbatim>\<open>hydrate\<close> replaces them; here they wait in \<open>raw_effects\<close>
  and \<open>effects\<close> is empty. Reads of the list between construction and hydration are
  not modelled.
\<close>

definition construct :: "nat \<Rightarrow> entity_data \<Rightarrow> entity" where
  "construct r data =
     \<lparr>ref = r, attributes = [], raw_attributes = data_attributes data,
      effects = [], raw_effects = data_effects data, hydrated = False\<rparr>"

text \<open>
  \<^verbatim>\<open>EffectableEntity.emit(event, ...args)\<close>: after the entity's own listeners, the event
  is relayed into the effect list.
\<close>

definition emit_entity :: "'d effect_class \<Rightarrow> real \<Rightarrow> string \<Rightarrow> entity \<Rightarrow> entity" where
  "emit_entity E now event ent = ent\<lparr>effects := fst (emit E now event (effects ent))\<rparr>"

definition hasAttribute :: "entity \<Rightarrow> string \<Rightarrow> bool" where
  "hasAttribute ent attr = (map_of (attributes ent) attr \<noteq> None)"

definition addAttribute :: "entity \<Rightarrow> attribute \<Rightarrow> entity" where
  "addAttribute ent attr = ent\<lparr>attributes := add_attribute attr (attributes ent)\<rparr>"

text \<open>
  \<^verbatim>\<open>getMaxAttribute(attrString)\<close>. The formula is applied to the attribute, the entity
  (as its data), the current value and the required values. The recursion over the required attributes of a
  formula has no cycle check; \<open>fuel\<close> bounds its depth and \<open>Diverges\<close> is the result when
  the bound is reached. The second function is the \<^verbatim>\<open>map\<close> over \<^verbatim>\<open>formula.requires\<close>.
\<close>

fun getMaxAttribute :: "nat \<Rightarrow> 'd effect_class \<Rightarrow> entity \<Rightarrow> string \<Rightarrow> error + entity \<times> real"
  and requiredValues :: "nat \<Rightarrow> 'd effect_class \<Rightarrow> entity \<Rightarrow> string list \<Rightarrow> error + entity \<times> real list"
where
  "getMaxAttribute fuel E ent attrString =
     (case map_of (attributes ent) attrString of
        None \<Rightarrow> Inl RangeError
      | Some attribute \<Rightarrow>
          (let (effs', currentVal) = evaluateAttribute E (effects ent) (name attribute) (base attribute);
               ent' = ent\<lparr>effects := effs'\<rparr>
           in case formula attribute of
                None \<Rightarrow> Inr (ent', currentVal)
              | Some f \<Rightarrow>
                  (case fuel of
                     0 \<Rightarrow> Inl Diverges
                   | Suc k \<Rightarrow>
                       (case requiredValues k E ent' (requires f) of
                          Inl err \<Rightarrow> Inl err
                        | Inr (ent'', vs) \<Rightarrow>
                            Inr (ent'', evaluate f (attribute_values.truncate attribute) (view ent'')
                                          currentVal vs)))))"
| "requiredValues k E ent [] = Inr (ent, [])"
| "requiredValues k E ent (reqAttr # rest) =
     (case getMaxAttribute k E ent reqAttr of
        Inl err \<Rightarrow> Inl err
      | Inr (ent', v) \<Rightarrow>
          (case requiredValues k E ent' rest of
             Inl err \<Rightarrow> Inl err
           | Inr (ent'', vs) \<Rightarrow> Inr (ent'', v # vs)))"

text \<open>
  The entity with the delta of one attribute changed by \<open>g\<close>: what a mutator of the
  delta does to the entity, and the means to say that a formula does not depend on
  that delta.
\<close>

definition map_delta :: "string \<Rightarrow> (real \<Rightarrow> real) \<Rightarrow> entity \<Rightarrow> entity" where
  "map_delta attrName g ent =
     ent\<lparr>attributes := map (\<lambda>(k, v). if k = attrName then (k, v\<lparr>delta := g (delta v)\<rparr>) else (k, v))
                             (attributes ent)\<rparr>"

text \<open>\<^verbatim>\<open>getAttribute(attrName)\<close>; the sum is a sum of doubles.\<close>

definition getAttribute :: "nat \<Rightarrow> 'd effect_class \<Rightarrow> entity \<Rightarrow> string \<Rightarrow> error + entity \<times> real" where
  "getAttribute fuel E ent attrName =
     (case map_of (attributes ent) attrName of
        None \<Rightarrow> Inl RangeError
      | Some attr \<Rightarrow>
          (case getMaxAttribute fuel E ent attrName of
             Inl err \<Rightarrow> Inl err
           | Inr (ent', m) \<Rightarrow> Inr (ent', js_plus m (delta attr))))"

text \<open>\<^verbatim>\<open>getBaseAttribute(attrName)\<close>, \<^verbatim>\<open>attr && attr.base\<close>; \<open>None\<close> is \<^verbatim>\<open>undefined\<close>.\<close>

definition getBaseAttribute :: "entity \<Rightarrow> string \<Rightarrow> real option" where
  "getBaseAttribute ent attrName =
     (case map_of (attributes ent) attrName of None \<Rightarrow> None | Some attr \<Rightarrow> Some (base attr))"

text \<open>
  The four mutators share one shape: look the attribute up, change it, compute
  \<^verbatim>\<open>this.getAttribute(attrString)\<close> for the event and emit \<^verbatim>\<open>attributeUpdate\<close>.
\<close>

definition update_attribute ::
  "nat \<Rightarrow> 'd effect_class \<Rightarrow> real \<Rightarrow> entity \<Rightarrow> string \<Rightarrow> (attribute \<Rightarrow> attribute) \<Rightarrow> error + entity" where
  "update_attribute fuel E now ent attrString change =
     (case map_of (attributes ent) attrString of
        None \<Rightarrow> Inl InvalidAttribute
      | Some attr \<Rightarrow>
          (let ent1 = ent\<lparr>attributes := map (\<lambda>(k, v). if k = attrString then (k, change v) else (k, v))
                                          (attributes ent)\<rparr>
           in case getAttribute fuel E ent1 attrString of
                Inl err \<Rightarrow> Inl err
              | Inr (ent2, v) \<Rightarrow> Inr (emit_entity E now ''attributeUpdate'' ent2)))"

definition setAttributeToMax :: "nat \<Rightarrow> 'd effect_class \<Rightarrow> real \<Rightarrow> entity \<Rightarrow> string \<Rightarrow> error + entity" where
  "setAttributeToMax fuel E now ent attrString =
     update_attribute fuel E now ent attrString (\<lambda>attr. setDelta attr 0)"

definition raiseAttribute ::
  "nat \<Rightarrow> 'd effect_class \<Rightarrow> real \<Rightarrow> entity \<Rightarrow> string \<Rightarrow> real \<Rightarrow> error + entity" where
  "raiseAttribute fuel E now ent attrString amount =
     update_attribute fuel E now ent attrString (\<lambda>attr. raise attr amount)"

definition lowerAttribute ::
  "nat \<Rightarrow> 'd effect_class \<Rightarrow> real \<Rightarrow> entity \<Rightarrow> string \<Rightarrow> real \<Rightarrow> error + entity" where
  "lowerAttribute fuel E now ent attrString amount =
     update_attribute fuel E now ent attrString (\<lambda>attr. lower attr amount)"

definition setAttributeBase ::
  "nat \<Rightarrow> 'd effect_class \<Rightarrow> real \<Rightarrow> entity \<Rightarrow> string \<Rightarrow> real \<Rightarrow> error + entity" where
  "setAttributeBase fuel E now ent attrString newBase =
     update_attribute fuel E now ent attrString (\<lambda>attr. setBase attr newBase)"

text \<open>A sequence of calls of the mutators, stopping at the first one that raises.\<close>

datatype attribute_call =
    Raise string real
  | Lower string real
  | SetBase string real

fun call :: "nat \<Rightarrow> 'd effect_class \<Rightarrow> real \<Rightarrow> entity \<Rightarrow> attribute_call \<Rightarrow> error + entity" where
  "call fuel E now ent (Raise attrString amount) = raiseAttribute fuel E now ent attrString amount"
| "call fuel E now ent (Lower attrString amount) = lowerAttribute fuel E now ent attrString amount"
| "call fuel E now ent (SetBase attrString newBase) = setAttributeBase fuel E now ent attrString newBase"

fun calls :: "nat \<Rightarrow> 'd effect_class \<Rightarrow> real \<Rightarrow> entity \<Rightarrow> attribute_call list \<Rightarrow> error + entity" where
  "calls fuel E now ent [] = Inr ent"
| "calls fuel E now ent (c # cs) =
     (case call fuel E now ent c of
        Inl err \<Rightarrow> Inl err
      | Inr ent' \<Rightarrow> calls fuel E now ent' cs)"

text \<open>
  \<^verbatim>\<open>EffectableEntity.evaluateIncomingDamage\<close> and \<^verbatim>\<open>evaluateOutgoingDamage\<close>: the entity
  afterwards and the value returned.
\<close>

definition evaluateIncomingDamage_entity ::
  "'d effect_class \<Rightarrow> entity \<Rightarrow> 'd \<Rightarrow> jsnum \<Rightarrow> entity \<times> jsnum" where
  "evaluateIncomingDamage_entity E ent damage currentAmount =
     (let (effs', amount) = evaluateIncomingDamage E (effects ent) damage currentAmount
      in (ent\<lparr>effects := effs'\<rparr>, js_floor amount))"

definition evaluateOutgoingDamage_entity ::
  "'d effect_class \<Rightarrow> entity \<Rightarrow> 'd \<Rightarrow> jsnum \<Rightarrow> entity \<times> jsnum" where
  "evaluateOutgoingDamage_entity E ent damage currentAmount =
     (let (effs', amount) = evaluateOutgoingDamage E (effects ent) damage currentAmount
      in (ent\<lparr>effects := effs'\<rparr>, amount))"

text \<open>
  The attribute loop of \<^verbatim>\<open>EffectableEntity.hydrate\<close>, over \<^verbatim>\<open>__attributes\<close> in order.
  \<^verbatim>\<open>null\<close> passes the \<^verbatim>\<open>typeof\<close> test as an object and \<^verbatim>\<open>'base' in null\<close> raises a
  \<^verbatim>\<open>TypeError\<close>.
\<close>

fun hydrate_attributes ::
  "(string \<rightharpoonup> formula option) \<Rightarrow> (string \<times> attribute_config) list \<Rightarrow> (string \<times> attribute) list
    \<Rightarrow> error + (string \<times> attribute) list" where
  "hydrate_attributes registry [] attrs = Inr attrs"
| "hydrate_attributes registry ((attr, raw) # rest) attrs =
     (let attrConfig = (case raw of AttrNumber n \<Rightarrow> AttrObject (Some n) (Some 0) | _ \<Rightarrow> raw) in
      case attrConfig of
        AttrObject (Some b) d \<Rightarrow>
          (if registry attr = None then Inl UnknownAttribute
           else hydrate_attributes registry rest
                  (add_attribute (create_attribute registry attr b (or_num d 0)) attrs))
      | AttrNull \<Rightarrow> Inl TypeError
      | _ \<Rightarrow> Inl InvalidBase)"

text \<open>
  \<^verbatim>\<open>EffectableEntity.hydrate(state, serialized)\<close>. The body never reads \<^verbatim>\<open>serialized\<close>:
  the attributes come from \<^verbatim>\<open>__attributes\<close> and the effects from the entries the list
  was constructed with. A second call changes nothing.
\<close>

definition hydrate_entity ::
  "'d effect_class \<Rightarrow> game_state \<Rightarrow> entity \<Rightarrow> entity_data \<Rightarrow> error + entity" where
  "hydrate_entity E gs ent serialized =
     (if hydrated ent then Inr ent
      else case hydrate_attributes (AttributeFactory gs) (raw_attributes ent) (attributes ent) of
        Inl err \<Rightarrow> Inl err
      | Inr attrs \<Rightarrow>
          (case hydrate E (EffectFactory gs) (ref ent) (raw_effects ent) [] of
             Inl err \<Rightarrow> Inl err
           | Inr effs \<Rightarrow>
               Inr (ent\<lparr>attributes := attrs, effects := effs, raw_effects := [], hydrated := True\<rparr>)))"

text \<open>\<^verbatim>\<open>EffectableEntity.serialize()\<close>: the entity afterwards and the data.\<close>

definition serialize_entity :: "'d effect_class \<Rightarrow> entity \<Rightarrow> entity \<times> entity_data" where
  "serialize_entity E ent =
     (let (effs', persisted) = serialize E (effects ent)
      in (ent\<lparr>effects := effs'\<rparr>,
          \<lparr>data_attributes = serialize_attributes (attributes ent), data_effects = persisted\<rparr>))"

section \<open>Scenarios\<close>

text \<open>
  Concrete values for the examples below. An effect class whose effects expire when
  their stack count is zero and whose modifiers change nothing; the \<^verbatim>\<open>poison\<close> effect
  of the specification's scenario (\<^verbatim>\<open>maxStacks = 3\<close>, \<^verbatim>\<open>tickInterval = 5\<close>), unique as
  well; an \<^verbatim>\<open>aura\<close> that is unique, does not stack, does not persist and has
  \<^verbatim>\<open>tickInterval = false\<close>.
\<close>

definition plain_class :: "'d effect_class" where
  "plain_class =
     \<lparr>isCurrent = (\<lambda>effect. stacks (state effect) \<noteq> Some 0),
      modifyAttribute = (\<lambda>effect attrName v. v),
      modifyIncomingDamage = (\<lambda>effect damage a. a),
      modifyOutgoingDamage = (\<lambda>effect damage a. a)\<rparr>"

definition poison :: effect where
  "poison =
     \<lparr>effect_id = ''poison'',
      config = \<lparr>type = ''poison'', maxStacks = 3, refreshes = False, unique = True,
                persists = True, tickInterval = TickNum 5\<rparr>,
      state = \<lparr>stacks = Some 1, lastTick = None, ticks = Some 0\<rparr>,
      paused = False, target = None\<rparr>"

definition aura :: effect where
  "aura =
     \<lparr>effect_id = ''aura'',
      config = \<lparr>type = ''aura'', maxStacks = 0, refreshes = False, unique = True,
                persists = False, tickInterval = TickBool False\<rparr>,
      state = \<lparr>stacks = None, lastTick = None, ticks = Some 0\<rparr>,
      paused = False, target = None\<rparr>"

text \<open>
  An entity with two attributes, \<^verbatim>\<open>health\<close> (base 100, 20 below its maximum) and
  \<^verbatim>\<open>power\<close>, whose formula adds the maximum of \<^verbatim>\<open>health\<close> to its own current value;
  the entity carries the two effects above. The registries know both attributes and
  both effects.
\<close>

definition power_formula :: formula where
  "power_formula =
     \<lparr>requires = [''health''],
      evaluate = (\<lambda>attr ent currentVal vs. fold (\<lambda>v acc. js_plus acc v) vs currentVal)\<rparr>"

definition hero :: entity where
  "hero =
     \<lparr>ref = 7,
      attributes =
        [(''health'', \<lparr>name = ''health'', base = 100, delta = - 20, formula = None\<rparr>),
         (''power'', \<lparr>name = ''power'', base = 5, delta = 0, formula = Some power_formula\<rparr>)],
      raw_attributes = [],
      effects = [poison\<lparr>target := Some 7\<rparr>, aura\<lparr>target := Some 7\<rparr>],
      raw_effects = [],
      hydrated = True\<rparr>"

definition world :: game_state where
  "world =
     \<lparr>AttributeFactory = [''health'' \<mapsto> None, ''power'' \<mapsto> Some power_formula],
      EffectFactory = [''poison'' \<mapsto> poison, ''aura'' \<mapsto> aura]\<rparr>"

text \<open>
  An entity whose only attribute, \<^verbatim>\<open>rage\<close>, has a formula that reads the delta of the
  attribute it is given.
\<close>

definition rage_formula :: formula where
  "rage_formula =
     \<lparr>requires = [], evaluate = (\<lambda>attr ent currentVal vs. js_plus currentVal (delta attr))\<rparr>"

definition berserk :: entity where
  "berserk =
     \<lparr>ref = 8,
      attributes = [(''rage'', \<lparr>name = ''rage'', base = 10, delta = 0, formula = Some rage_formula\<rparr>)],
      raw_attributes = [], effects = [], raw_effects = [], hydrated = True\<rparr>"

text \<open>
  The same entities after calls: \<^verbatim>\<open>rage\<close> raised by 5; \<^verbatim>\<open>health\<close> lowered by 5 and its
  base set to 120.
\<close>

definition enraged :: entity where
  "enraged =
     berserk\<lparr>attributes :=
       [(''rage'', \<lparr>name = ''rage'', base = 10, delta = 5, formula = Some rage_formula\<rparr>)]\<rparr>"

definition wounded :: entity where
  "wounded =
     hero\<lparr>attributes :=
       [(''health'', \<lparr>name = ''health'', base = 120, delta = - 25, formula = None\<rparr>),
        (''power'', \<lparr>name = ''power'', base = 5, delta = 0, formula = Some power_formula\<rparr>)]\<rparr>"

text \<open>
  An entity whose attribute \<^verbatim>\<open>mass\<close> has no formula and the base \<open>2 ^ 53\<close>, and the same
  entity after \<^verbatim>\<open>mass\<close> is raised by 1.
\<close>

definition giant :: entity where
  "giant =
     \<lparr>ref = 6,
      attributes =
        [(''mass'', \<lparr>name = ''mass'', base = 9007199254740992, delta = 0, formula = None\<rparr>)],
      raw_attributes = [], effects = [], raw_effects = [], hydrated = True\<rparr>"

definition giant_raised :: entity where
  "giant_raised =
     giant\<lparr>attributes :=
       [(''mass'', \<lparr>name = ''mass'', base = 9007199254740992, delta = 1, formula = None\<rparr>)]\<rparr>"

text \<open>
  The definition the first entity is an instance of, and a fresh entity of that
  definition after hydration.
\<close>

definition hero_definition :: entity_data where
  "hero_definition =
     \<lparr>data_attributes = [(''health'', AttrNumber 100), (''power'', AttrNumber 5)],
      data_effects = []\<rparr>"

definition recruit :: entity where
  "recruit =
     \<lparr>ref = 9,
      attributes =
        [(''health'', \<lparr>name = ''health'', base = 100, delta = 0, formula = None\<rparr>),
         (''power'', \<lparr>name = ''power'', base = 5, delta = 0, formula = Some power_formula\<rparr>)],
      raw_attributes = [(''health'', AttrNumber 100), (''power'', AttrNumber 5)],
      effects = [],
      raw_effects = [],
      hydrated = True\<rparr>"

text \<open>
  What the first entity serializes to, and the entity constructed from that data
  after hydration.
\<close>

definition saved :: entity_data where
  "saved =
     \<lparr>data_attributes =
        [(''health'', AttrObject (Some 100) (Some (- 20))),
         (''power'', AttrObject (Some 5) (Some 0))],
      data_effects =
        [\<lparr>data_id = ''poison'', data_state = \<lparr>stacks = Some 1, lastTick = None, ticks = Some 0\<rparr>\<rparr>]\<rparr>"

definition revived :: entity where
  "revived =
     \<lparr>ref = 9,
      attributes =
        [(''health'', \<lparr>name = ''health'', base = 100, delta = - 20, formula = None\<rparr>),
         (''power'', \<lparr>name = ''power'', base = 5, delta = 0, formula = Some power_formula\<rparr>)],
      raw_attributes =
        [(''health'', AttrObject (Some 100) (Some (- 20))),
         (''power'', AttrObject (Some 5) (Some 0))],
      effects = [poison\<lparr>target := Some 9\<rparr>],
      raw_effects = [],
      hydrated = True\<rparr>"

section \<open>Addition of doubles\<close>

text \<open>Integers up to \<open>2 ^ 53\<close> in absolute value are doubles: rounding leaves them alone.\<close>

lemma round_even_of_int: "round_even (of_int n) = n"
  by (simp add: round_even_def)

lemma double_ulp_binade:
  assumes "2 powr of_int k \<le> \<bar>x\<bar>" and "\<bar>x\<bar> < 2 powr of_int (k + 1)" and "- 1022 \<le> k"
  shows "double_ulp x = 2 powr of_int (k - 52)"
proof -
  have "0 < (2::real) powr of_int k" by simp
  with assms(1) have pos: "0 < \<bar>x\<bar>" by linarith
  have "\<lfloor>log 2 \<bar>x\<bar>\<rfloor> = k"
    using assms(1,2) pos by (simp add: floor_log_eq_powr_iff)
  moreover have "max (k - 52) (- 1074) = k - 52" using assms(3) by simp
  ultimately show ?thesis by (simp only: double_ulp_def)
qed

lemma to_double_of_int:
  assumes "\<bar>n\<bar> \<le> 2 ^ 53"
  shows "to_double (of_int n) = of_int n"
proof (cases "n = 0")
  case True
  then show ?thesis by (simp add: to_double_def)
next
  case False
  let ?x = "of_int n :: real"
  define k where "k = \<lfloor>log 2 \<bar>?x\<bar>\<rfloor>"
  from False have "1 \<le> \<bar>n\<bar>" by simp
  then have "(of_int 1 :: real) \<le> of_int \<bar>n\<bar>" by (simp only: of_int_le_iff)
  then have one: "1 \<le> \<bar>?x\<bar>" by simp
  then have pos: "0 < \<bar>?x\<bar>" by linarith
  from k_def pos have bin: "2 powr of_int k \<le> \<bar>?x\<bar>" "\<bar>?x\<bar> < 2 powr of_int (k + 1)"
    using floor_log_eq_powr_iff[of "\<bar>?x\<bar>" 2 k] by simp_all
  have k0: "0 \<le> k"
    using one by (simp add: k_def)
  from assms have "(of_int \<bar>n\<bar> :: real) \<le> of_int (2 ^ 53)" by (simp only: of_int_le_iff)
  then have le: "\<bar>?x\<bar> \<le> 2 ^ 53" by simp
  have k53: "k \<le> 53"
  proof (rule ccontr)
    assume "\<not> k \<le> 53"
    then have "(54::real) \<le> of_int k" by linarith
    then have "(2::real) powr 54 \<le> 2 powr of_int k" by (intro powr_mono) simp_all
    with bin(1) le show False by simp
  qed
  have ulp: "double_ulp ?x = 2 powr of_int (k - 52)"
    using bin k0 by (intro double_ulp_binade) auto
  have "\<exists>j. ?x / double_ulp ?x = of_int j"
  proof (cases "k \<le> 52")
    case True
    then have "(2::real) powr of_int (k - 52) = inverse (2 ^ nat (52 - k))"
      using powr_real_of_int[of 2 "k - 52"] True by (cases "k = 52") auto
    then have "?x / double_ulp ?x = of_int (n * 2 ^ nat (52 - k))"
      by (simp add: ulp divide_inverse)
    then show ?thesis by blast
  next
    case False
    with k53 have k: "k = 53" by simp
    with bin(1) le have "\<bar>?x\<bar> = 2 ^ 53" by simp
    then have "?x = 2 ^ 53 \<or> ?x = - (2 ^ 53)" by linarith
    then have "?x / double_ulp ?x = of_int (2 ^ 52) \<or> ?x / double_ulp ?x = of_int (- (2 ^ 52))"
      by (auto simp: ulp k)
    then show ?thesis by blast
  qed
  then obtain j where j: "?x / double_ulp ?x = of_int j" by blast
  have "double_ulp ?x \<noteq> 0" by (simp add: double_ulp_def)
  with j have "?x = double_ulp ?x * of_int j" by (simp add: field_simps)
  with j False show ?thesis
    by (simp add: to_double_def round_even_of_int)
qed

lemma to_double_numeral [simp]:
  "numeral w \<le> (9007199254740992::int) \<Longrightarrow> to_double (numeral w) = numeral w"
  using to_double_of_int[of "numeral w"] by simp

lemma to_double_neg_numeral [simp]:
  "numeral w \<le> (9007199254740992::int) \<Longrightarrow> to_double (- numeral w) = - numeral w"
  using to_double_of_int[of "- numeral w"] by simp

lemma to_double_0 [simp]: "to_double 0 = 0" by (simp add: to_double_def)
lemma to_double_1 [simp]: "to_double 1 = 1" using to_double_of_int[of 1] by simp

text \<open>Above \<open>2 ^ 53\<close> the doubles are the even integers: \<open>2 ^ 53 + 1\<close> is rounded to \<open>2 ^ 53\<close>.\<close>

lemma to_double_above_2_53: "to_double 9007199254740993 = 9007199254740992"
proof -
  have "double_ulp 9007199254740993 = 2 powr of_int (53 - 52)"
    by (rule double_ulp_binade) simp_all
  then have u: "double_ulp 9007199254740993 = 2" by simp
  have "round_even (9007199254740993 / 2) = 4503599627370496"
  proof -
    have f: "\<lfloor>(9007199254740993 / 2 :: real)\<rfloor> = 4503599627370496" by linarith
    show ?thesis by (simp add: round_even_def f Let_def)
  qed
  with u show ?thesis by (simp add: to_double_def)
qed

section \<open>Properties of the damage folds\<close>

lemma js_clamp_nonneg: "\<exists>r. js_or (js_max a (Num 0)) (Num 0) = Num r \<and> 0 \<le> r"
  by (cases a) auto

text \<open>
  C5. Whatever the damage object, the input amount and the modifier functions of the
  effects in the list, \<^verbatim>\<open>evaluateIncomingDamage\<close> and \<^verbatim>\<open>evaluateOutgoingDamage\<close> return a
  number (never \<^verbatim>\<open>NaN\<close>) that is at least zero.
\<close>

theorem evaluate_damage_nonneg:
  "(\<exists>r. snd (evaluateIncomingDamage E effs damage amt) = Num r \<and> 0 \<le> r) \<and>
   (\<exists>r. snd (evaluateOutgoingDamage E effs damage amt) = Num r \<and> 0 \<le> r)"
  unfolding evaluateIncomingDamage_def evaluateOutgoingDamage_def Let_def snd_conv
  using js_clamp_nonneg by blast


theorem evaluate_damage_nonneg_witness:
  "snd (evaluateIncomingDamage (plain_class :: unit effect_class) [poison] () (Num (- 4))) = Num 0 \<and>
   snd (evaluateOutgoingDamage (plain_class :: unit effect_class) [poison] () NaN) = Num 0"
  using evaluate_damage_nonneg [of "plain_class :: unit effect_class" "[poison]" "()" "Num (- 4)"]
        evaluate_damage_nonneg [of "plain_class :: unit effect_class" "[poison]" "()" "NaN"]
  by (simp add: evaluateIncomingDamage_def evaluateOutgoingDamage_def plain_class_def poison_def)

section \<open>Properties of add\<close>

lemmas add_defs = add_def deep_clone_def stack_cond_def stack_added_def or_num_def truthy_def

text \<open>
  The stacking branch leaves a stack count alone when it is a non-zero number within
  the cap: it never counts up.
\<close>

lemma stack_added_no_increment:
  assumes "stacks (state a) = Some s" and "s \<noteq> 0" and "s \<le> maxStacks (config a)"
  shows "stack_added a = a"
  using assms by (simp add: stack_added_def or_num_def min_def)

text \<open>
  C1. The claim: for an effect type with \<^verbatim>\<open>maxStacks = N\<close>, adding \<open>N + 1\<close> effects of that
  type to an empty list leaves one member whose stack count is \<open>N\<close>. The code, at
  \<open>N = 3\<close> with four \<^verbatim>\<open>poison\<close> effects whose stack count starts at 1: the list has one
  member, and its stack count is still 1. The stacking branch assigns
  \<^verbatim>\<open>Math.min(maxStacks, stacks || 0 + 1)\<close>, which is \<^verbatim>\<open>stacks || 1\<close> under the cap and
  never adds.
\<close>

theorem add_four_poison_stacks:
  "maxStacks (config poison) = 3 \<and>
   add_all (plain_class :: unit effect_class) 7 [poison, poison, poison, poison] []
     = Inr [poison\<lparr>target := Some 7\<rparr>] \<and>
   stacks (state (poison\<lparr>target := Some 7\<rparr>)) = Some 1"
  by (simp add: add_defs plain_class_def poison_def)

lemma add_scan_rejects:
  assumes "\<exists>a\<in>set effs. type (config a) = type (config e)"
    and "\<forall>a\<in>set effs. type (config a) = type (config e) \<longrightarrow>
           unique (config a) \<and> \<not> refreshes (config a) \<and> \<not> stack_cond a"
  shows "add_scan e effs = Some (False, effs)"
  using assms
proof (induction effs)
  case Nil
  then show ?case by simp
next
  case (Cons a effs)
  show ?case
  proof (cases "type (config e) = type (config a)")
    case True
    with Cons.prems(2) show ?thesis by simp
  next
    case False
    with Cons.prems have "\<exists>a\<in>set effs. type (config a) = type (config e)"
      and "\<forall>a\<in>set effs. type (config a) = type (config e) \<longrightarrow>
             unique (config a) \<and> \<not> refreshes (config a) \<and> \<not> stack_cond a"
      by auto
    then have "add_scan e effs = Some (False, effs)" by (rule Cons.IH)
    with False show ?thesis by simp
  qed
qed

text \<open>
  C7, as stated, fails: the rules are tried in the order stacking, refresh, unique, so
  a second \<^verbatim>\<open>poison\<close> (unique, \<^verbatim>\<open>maxStacks = 3\<close>) is taken by the stacking rule. \<^verbatim>\<open>add\<close>
  returns true and sets the member's undefined stack count to 1.
\<close>

theorem unique_stacking_add_accepted:
  "unique (config poison) \<and> target poison = None \<and>
   add (plain_class :: unit effect_class) 7 poison
     [poison\<lparr>target := Some 7, state := \<lparr>stacks = None, lastTick = None, ticks = Some 0\<rparr>\<rparr>]
   = Inr (True, [poison\<lparr>target := Some 7\<rparr>])"
  by (simp add: add_defs plain_class_def poison_def)

text \<open>
  C7, amended. When the list has a member of the new effect's type, and every member
  of that type is unique, does not refresh and does not meet the condition of the
  stacking rule, \<^verbatim>\<open>add\<close> of a detached effect returns false and the list is unchanged:
  nothing inserted, no member modified or removed.
\<close>

theorem unique_add_rejected:
  assumes "target e = None"
    and "\<exists>a\<in>set effs. type (config a) = type (config e)"
    and "\<forall>a\<in>set effs. type (config a) = type (config e) \<longrightarrow>
           unique (config a) \<and> \<not> refreshes (config a) \<and> \<not> stack_cond a"
  shows "add E tgt e effs = Inr (False, effs)"
proof -
  let ?e = "e\<lparr>state := deep_clone (state e)\<rparr>"
  have "add_scan ?e effs = Some (False, effs)"
    using assms(2,3) by (intro add_scan_rejects) simp_all
  with assms(1) show ?thesis by (simp add: add_def)
qed

theorem unique_add_rejected_witness:
  "add (plain_class :: unit effect_class) 7 aura [aura\<lparr>target := Some 7\<rparr>]
     = Inr (False, [aura\<lparr>target := Some 7\<rparr>])"
  using unique_add_rejected [of aura "[aura\<lparr>target := Some 7\<rparr>]" plain_class 7]
  by (simp add: aura_def stack_cond_def truthy_def)

section \<open>Properties of emit\<close>

lemmas emit_defs = emit_def emit_one_def or_num_def truthy_def Let_def

text \<open>Whether an effect is handed an event does not depend on its \<^verbatim>\<open>lastTick\<close>.\<close>

lemma emit_one_ignores_lastTick:
  "snd (emit_one now event (effect\<lparr>state := (state effect)\<lparr>lastTick := t\<rparr>\<rparr>))
     = snd (emit_one now event effect)"
  by (simp add: emit_one_def Let_def split: bool.splits tickInterval.splits)

text \<open>
  C2. The claim: \<^verbatim>\<open>updateTick\<close> reaches an effect with a numeric \<^verbatim>\<open>tickInterval\<close> exactly
  when the time since its last delivered tick is at least the interval, and a delivery
  increments \<^verbatim>\<open>state.ticks\<close>. The code measures the time from \<^verbatim>\<open>state.ticks || 0\<close>, the
  counter, not from \<^verbatim>\<open>state.lastTick\<close>, and increments with
  \<^verbatim>\<open>state.ticks && state.ticks++\<close>. Here the interval is 5 s, the last tick was
  delivered at 999000 ms and the event comes at 1000000 ms, one second later: the event
  is delivered, and \<^verbatim>\<open>ticks\<close> stays 0.
\<close>

theorem updateTick_early_delivery:
  "tickInterval (config poison) = TickNum 5 \<and>
   emit (plain_class :: unit effect_class) 1000000 ''updateTick''
     [poison\<lparr>target := Some 7, state := \<lparr>stacks = Some 1, lastTick = Some 999000, ticks = Some 0\<rparr>\<rparr>]
   = ([poison\<lparr>target := Some 7, state := \<lparr>stacks = Some 1, lastTick = Some 1000000, ticks = Some 0\<rparr>\<rparr>],
      [poison\<lparr>target := Some 7, state := \<lparr>stacks = Some 1, lastTick = Some 1000000, ticks = Some 0\<rparr>\<rparr>])"
  by (simp add: emit_defs plain_class_def poison_def)

lemma validateEffects_filter: "validateEffects E effs = filter (isCurrent E) effs"
  by (induction effs) auto

lemma emit_one_bool:
  "tickInterval (config e) = TickBool b \<Longrightarrow> emit_one now event e = (e, \<not> paused e)"
  by (simp add: emit_one_def split: bool.splits)

lemma emit_one_keeps_config: "config (fst (emit_one now event e)) = config e"
  by (auto simp: emit_one_def Let_def split: tickInterval.splits bool.splits)

lemma emit_delivered_set:
  "event \<noteq> ''effectAdded'' \<Longrightarrow> event \<noteq> ''effectRemoved'' \<Longrightarrow>
   set (snd (emit E now event effs)) =
     {fst (emit_one now event a) | a. a \<in> set effs \<and> isCurrent E a \<and> snd (emit_one now event a)}"
  by (auto simp: emit_def Let_def validateEffects_filter image_iff)

text \<open>
  C6, as stated, fails: the interval gate is entered only when \<^verbatim>\<open>tickInterval\<close> is not a
  boolean, and an effect that skips the gate is handed the event. The \<^verbatim>\<open>aura\<close>, with
  \<^verbatim>\<open>tickInterval = false\<close>, receives \<^verbatim>\<open>updateTick\<close>.
\<close>

theorem tick_false_receives_updateTick:
  "tickInterval (config (aura\<lparr>target := Some 7\<rparr>)) = TickBool False \<and>
   snd (emit (plain_class :: unit effect_class) 1000 ''updateTick'' [aura\<lparr>target := Some 7\<rparr>])
     = [aura\<lparr>target := Some 7\<rparr>]"
  by (simp add: emit_defs plain_class_def aura_def)

text \<open>
  C6, amended. For a member of the list whose \<^verbatim>\<open>tickInterval\<close> is false,
  \<^verbatim>\<open>emit('updateTick')\<close> applies no interval gate: the event is delivered to it, as it
  is, on every call on which it is current and not paused, and on no other.
\<close>

theorem tick_false_gets_every_updateTick:
  assumes "e \<in> set effs" and "tickInterval (config e) = TickBool False"
  shows "e \<in> set (snd (emit E now ''updateTick'' effs)) \<longleftrightarrow> isCurrent E e \<and> \<not> paused e"
proof
  assume "e \<in> set (snd (emit E now ''updateTick'' effs))"
  then obtain a where a: "a \<in> set effs" "isCurrent E a" "snd (emit_one now ''updateTick'' a)"
      and e: "e = fst (emit_one now ''updateTick'' a)"
    by (auto simp: emit_delivered_set)
  from e have "config a = config e" by (simp add: emit_one_keeps_config)
  with assms(2) have "tickInterval (config a) = TickBool False" by simp
  then have "emit_one now ''updateTick'' a = (a, \<not> paused a)" by (rule emit_one_bool)
  with a e show "isCurrent E e \<and> \<not> paused e" by simp
next
  assume "isCurrent E e \<and> \<not> paused e"
  moreover from assms(2) have "emit_one now ''updateTick'' e = (e, \<not> paused e)"
    by (rule emit_one_bool)
  ultimately show "e \<in> set (snd (emit E now ''updateTick'' effs))"
    using assms(1) by (force simp: emit_delivered_set)
qed

theorem tick_false_gets_every_updateTick_witness:
  "aura\<lparr>target := Some 7\<rparr>
     \<in> set (snd (emit (plain_class :: unit effect_class) 1000 ''updateTick''
                   [poison\<lparr>target := Some 7\<rparr>, aura\<lparr>target := Some 7\<rparr>]))"
  using tick_false_gets_every_updateTick
          [of "aura\<lparr>target := Some 7\<rparr>" "[poison\<lparr>target := Some 7\<rparr>, aura\<lparr>target := Some 7\<rparr>]"
              "plain_class :: unit effect_class" 1000]
  by (simp add: plain_class_def aura_def)

section \<open>Reads of the list\<close>

text \<open>The type lookups see every member, current or not.\<close>

lemma hasEffectType_any_member:
  "hasEffectType effs ty \<longleftrightarrow> (\<exists>effect\<in>set effs. type (config effect) = ty)"
  by (auto simp: hasEffectType_def getByType_def find_None_iff)

text \<open>
  C9. The claim: every read purges expired members first, the type lookups
  \<^verbatim>\<open>hasEffectType\<close> and \<^verbatim>\<open>getByType\<close> included. The code: \<^verbatim>\<open>size\<close>, \<^verbatim>\<open>entries\<close>, \<^verbatim>\<open>emit\<close>,
  \<^verbatim>\<open>serialize\<close> and the evaluation folds call \<^verbatim>\<open>validateEffects\<close>; \<^verbatim>\<open>getByType\<close> and
  \<^verbatim>\<open>hasEffectType\<close> do not. On a list whose only member is an expired \<^verbatim>\<open>poison\<close>, the
  lookups find it, while \<^verbatim>\<open>size\<close> is 0.
\<close>

theorem stale_effect_seen_by_type_lookup:
  "\<not> isCurrent (plain_class :: unit effect_class)
       (poison\<lparr>state := \<lparr>stacks = Some 0, lastTick = None, ticks = Some 0\<rparr>, target := Some 7\<rparr>) \<and>
   hasEffectType
     [poison\<lparr>state := \<lparr>stacks = Some 0, lastTick = None, ticks = Some 0\<rparr>, target := Some 7\<rparr>]
     ''poison'' \<and>
   getByType
     [poison\<lparr>state := \<lparr>stacks = Some 0, lastTick = None, ticks = Some 0\<rparr>, target := Some 7\<rparr>]
     ''poison''
     = Some (poison\<lparr>state := \<lparr>stacks = Some 0, lastTick = None, ticks = Some 0\<rparr>, target := Some 7\<rparr>) \<and>
   snd (size_effects (plain_class :: unit effect_class)
     [poison\<lparr>state := \<lparr>stacks = Some 0, lastTick = None, ticks = Some 0\<rparr>, target := Some 7\<rparr>]) = 0"
  by (simp add: hasEffectType_def getByType_def size_effects_def plain_class_def poison_def)

section \<open>Properties of the entity\<close>

text \<open>What the two methods of the entity return, in terms of the list's folds.\<close>

lemma entity_damage_delegation:
  "snd (evaluateIncomingDamage_entity E ent damage amt)
     = js_floor (snd (evaluateIncomingDamage E (effects ent) damage amt))"
  "snd (evaluateOutgoingDamage_entity E ent damage amt)
     = snd (evaluateOutgoingDamage E (effects ent) damage amt)"
  by (simp_all add: evaluateIncomingDamage_entity_def evaluateOutgoingDamage_entity_def
        split: prod.splits)

text \<open>
  C8. The claim: both \<^verbatim>\<open>EffectableEntity.evaluateIncomingDamage\<close> and
  \<^verbatim>\<open>evaluateOutgoingDamage\<close> floor the result of the list's fold to an integer. The
  code: the incoming method returns \<^verbatim>\<open>Math.floor(amount)\<close>, the outgoing method returns
  the fold's result as it is. With no modifier changing it, an amount of 2.5 comes back
  as 2 from the first and as 2.5 from the second.
\<close>

theorem outgoing_damage_not_floored:
  "snd (evaluateIncomingDamage_entity (plain_class :: unit effect_class) hero () (Num (5 / 2)))
     = Num 2 \<and>
   snd (evaluateOutgoingDamage_entity (plain_class :: unit effect_class) hero () (Num (5 / 2)))
     = Num (5 / 2)"
  by (simp add: evaluateIncomingDamage_entity_def evaluateOutgoingDamage_entity_def
        evaluateIncomingDamage_def evaluateOutgoingDamage_def plain_class_def hero_def
        poison_def aura_def)

text \<open>
  C10. For a name the entity has no attribute for, \<^verbatim>\<open>getBaseAttribute\<close> returns
  \<^verbatim>\<open>undefined\<close>, where \<^verbatim>\<open>getMaxAttribute\<close> and \<^verbatim>\<open>getAttribute\<close> raise a \<^verbatim>\<open>RangeError\<close> and
  \<^verbatim>\<open>raiseAttribute\<close>, \<^verbatim>\<open>lowerAttribute\<close> and \<^verbatim>\<open>setAttributeBase\<close> raise an error for the
  invalid attribute.
\<close>

theorem getBaseAttribute_unknown_undefined:
  assumes "map_of (attributes ent) attrName = None"
  shows "getBaseAttribute ent attrName = None \<and>
         getMaxAttribute fuel E ent attrName = Inl RangeError \<and>
         getAttribute fuel E ent attrName = Inl RangeError \<and>
         raiseAttribute fuel E now ent attrName amount = Inl InvalidAttribute \<and>
         lowerAttribute fuel E now ent attrName amount = Inl InvalidAttribute \<and>
         setAttributeBase fuel E now ent attrName newBase = Inl InvalidAttribute"
  using assms
  by (simp add: getBaseAttribute_def getAttribute_def raiseAttribute_def lowerAttribute_def
        setAttributeBase_def update_attribute_def)

theorem getBaseAttribute_unknown_undefined_witness:
  "getBaseAttribute hero ''mana'' = None \<and>
   getMaxAttribute 3 (plain_class :: unit effect_class) hero ''mana'' = Inl RangeError \<and>
   getAttribute 3 (plain_class :: unit effect_class) hero ''mana'' = Inl RangeError \<and>
   raiseAttribute 3 (plain_class :: unit effect_class) 0 hero ''mana'' 1 = Inl InvalidAttribute \<and>
   lowerAttribute 3 (plain_class :: unit effect_class) 0 hero ''mana'' 1 = Inl InvalidAttribute \<and>
   setAttributeBase 3 (plain_class :: unit effect_class) 0 hero ''mana'' 1 = Inl InvalidAttribute"
  using getBaseAttribute_unknown_undefined
          [of hero "''mana''" 3 "plain_class :: unit effect_class" 0 1 1]
  by (simp add: hero_def)

section \<open>Attribute values\<close>

declare getMaxAttribute.simps [simp del]

lemma validateEffects_idem: "validateEffects E (validateEffects E effs) = validateEffects E effs"
  by (simp add: validateEffects_filter)

lemma evaluateAttribute_fst: "fst (evaluateAttribute E effs n b) = validateEffects E effs"
  by (simp add: evaluateAttribute_def Let_def)

lemma evaluateAttribute_validated:
  "validateEffects E effs' = validateEffects E effs \<Longrightarrow>
   evaluateAttribute E effs' n b = evaluateAttribute E effs n b"
  by (simp add: evaluateAttribute_def Let_def)

text \<open>
  The entity returned by a successful \<^verbatim>\<open>getMaxAttribute\<close> is the entity it was called on,
  with its list validated.
\<close>

lemma getMaxAttribute_entity_aux:
  "(\<forall>ent m e1 v. getMaxAttribute k E ent m = Inr (e1, v) \<longrightarrow>
        e1 = ent\<lparr>effects := validateEffects E (effects ent)\<rparr>)"
proof (induction k)
  case 0
  show ?case
    by (auto simp: getMaxAttribute.simps[of 0] Let_def evaluateAttribute_def
             split: option.splits prod.splits)
next
  case (Suc k)
  have req: "requiredValues k E ent ms = Inr (e2, vs) \<Longrightarrow>
               e2 = ent \<or> e2 = ent\<lparr>effects := validateEffects E (effects ent)\<rparr>" for ent ms e2 vs
  proof (induction ms arbitrary: ent e2 vs)
    case Nil
    then show ?case by simp
  next
    case (Cons r rs)
    from Cons.prems obtain e1 v vs' where
      g: "getMaxAttribute k E ent r = Inr (e1, v)" and
      r: "requiredValues k E e1 rs = Inr (e2, vs')"
      by (auto split: sum.splits prod.splits)
    from g Suc.IH have e1: "e1 = ent\<lparr>effects := validateEffects E (effects ent)\<rparr>" by blast
    from Cons.IH[OF r] show ?case
      by (auto simp: e1 validateEffects_idem)
  qed
  show ?case
  proof (intro allI impI)
    fix ent m e1 v
    assume a: "getMaxAttribute (Suc k) E ent m = Inr (e1, v)"
    show "e1 = ent\<lparr>effects := validateEffects E (effects ent)\<rparr>"
    proof (cases "map_of (attributes ent) m")
      case None
      with a show ?thesis by (simp add: getMaxAttribute.simps[of "Suc k"])
    next
      case (Some attr)
      show ?thesis
      proof (cases "formula attr")
        case None
        with a Some show ?thesis
          by (auto simp: getMaxAttribute.simps[of "Suc k"] Let_def evaluateAttribute_def
                split: prod.splits)
      next
        case (Some f)
        with a \<open>map_of (attributes ent) m = Some attr\<close> obtain e2 vs where
          "requiredValues k E (ent\<lparr>effects := validateEffects E (effects ent)\<rparr>) (requires f) = Inr (e2, vs)"
          and "e1 = e2"
          by (auto simp: getMaxAttribute.simps[of "Suc k"] Let_def evaluateAttribute_def
                split: prod.splits sum.splits)
        with req[of "ent\<lparr>effects := validateEffects E (effects ent)\<rparr>" "requires f" e2 vs]
        show ?thesis by (auto simp: validateEffects_idem)
      qed
    qed
  qed
qed

lemma getMaxAttribute_entity:
  "getMaxAttribute k E ent m = Inr (e1, v) \<Longrightarrow> e1 = ent\<lparr>effects := validateEffects E (effects ent)\<rparr>"
  using getMaxAttribute_entity_aux by blast


lemma requiredValues_entity:
  "requiredValues k E ent ms = Inr (e2, vs) \<Longrightarrow>
     e2 = ent \<or> e2 = ent\<lparr>effects := validateEffects E (effects ent)\<rparr>"
proof (induction ms arbitrary: ent e2 vs)
  case Nil
  then show ?case by simp
next
  case (Cons r rs)
  from Cons.prems obtain e1 v vs' where
    g: "getMaxAttribute k E ent r = Inr (e1, v)" and
    r: "requiredValues k E e1 rs = Inr (e2, vs')"
    by (auto split: sum.splits prod.splits)
  from g have e1: "e1 = ent\<lparr>effects := validateEffects E (effects ent)\<rparr>"
    by (rule getMaxAttribute_entity)
  from Cons.IH[OF r] show ?case
    by (auto simp: e1 validateEffects_idem)
qed

text \<open>
  A value returned with some fuel is returned with any more fuel: the bound only
  decides when an endless recursion is given up.
\<close>

lemma getMaxAttribute_more_fuel_aux:
  "\<forall>ent m r. getMaxAttribute k E ent m = Inr r \<longrightarrow> getMaxAttribute (Suc k) E ent m = Inr r"
proof (induction k)
  case 0
  show ?case
    by (auto simp: getMaxAttribute.simps[of 0] getMaxAttribute.simps[of "Suc 0"] Let_def
             split: option.splits prod.splits)
next
  case (Suc k)
  have req: "requiredValues k E ent ms = Inr r \<Longrightarrow> requiredValues (Suc k) E ent ms = Inr r"
    for ent ms r
  proof (induction ms arbitrary: ent r)
    case Nil
    then show ?case by simp
  next
    case (Cons a ms)
    from Cons.prems obtain e1 v e2 vs where
      g: "getMaxAttribute k E ent a = Inr (e1, v)" and
      q: "requiredValues k E e1 ms = Inr (e2, vs)" and r: "r = (e2, v # vs)"
      by (auto split: sum.splits prod.splits)
    from g Suc.IH have "getMaxAttribute (Suc k) E ent a = Inr (e1, v)" by blast
    moreover from Cons.IH[OF q] have "requiredValues (Suc k) E e1 ms = Inr (e2, vs)" .
    ultimately show ?case by (simp add: r)
  qed
  show ?case
  proof (intro allI impI)
    fix ent m r
    assume a: "getMaxAttribute (Suc k) E ent m = Inr r"
    show "getMaxAttribute (Suc (Suc k)) E ent m = Inr r"
    proof (cases "map_of (attributes ent) m")
      case None
      with a show ?thesis by (simp add: getMaxAttribute.simps[of "Suc k"])
    next
      case (Some attr)
      show ?thesis
      proof (cases "formula attr")
        case None
        with a Some show ?thesis
          by (simp add: getMaxAttribute.simps[of "Suc k"] getMaxAttribute.simps[of "Suc (Suc k)"])
      next
        case (Some f)
        obtain effs cur where ev: "evaluateAttribute E (effects ent) (name attr) (base attr) = (effs, cur)"
          by (cases "evaluateAttribute E (effects ent) (name attr) (base attr)")
        from a \<open>map_of (attributes ent) m = Some attr\<close> Some ev obtain e2 vs where
          q: "requiredValues k E (ent\<lparr>effects := effs\<rparr>) (requires f) = Inr (e2, vs)" and
          r: "r = (e2, evaluate f (attribute_values.truncate attr) (view e2) cur vs)"
          by (auto simp: getMaxAttribute.simps[of "Suc k"] split: sum.splits prod.splits)
        from req[OF q] \<open>map_of (attributes ent) m = Some attr\<close> Some ev r
        show ?thesis by (simp add: getMaxAttribute.simps[of "Suc (Suc k)"])
      qed
    qed
  qed
qed

lemma getMaxAttribute_more_fuel:
  "getMaxAttribute k E ent m = Inr r \<Longrightarrow> getMaxAttribute (k + j) E ent m = Inr r"
  by (induction j) (auto simp: getMaxAttribute_more_fuel_aux)

lemma map_of_changed:
  "map_of (map (\<lambda>(k, v). if k = n then (k, change v) else (k, v)) xs) m
     = map_option (\<lambda>v. if m = n then change v else v) (map_of xs m)"
  by (induction xs) auto

text \<open>
  Changing one attribute so that its name, base and formula stay leaves every value
  of \<^verbatim>\<open>getMaxAttribute\<close> as it is, when no formula of the entity tells the two entities
  apart. \<open>b\<close> is the entity with its list validated, \<open>b'\<close> the changed one.
\<close>

lemma getMaxAttribute_change_aux:
  fixes E :: "'d effect_class"
  assumes keep: "\<And>v. name (change v) = name v \<and> base (change v) = base v \<and> formula (change v) = formula v"
    and purged: "validateEffects E (effects b) = effects b"
    and b': "b' = b\<lparr>attributes := map (\<lambda>(k, v). if k = n then (k, change v) else (k, v)) (attributes b)\<rparr>"
    and indep: "\<And>m a f c vs. map_of (attributes b) m = Some a \<Longrightarrow> formula a = Some f \<Longrightarrow>
        evaluate f (attribute_values.truncate (if m = n then change a else a)) (view b') c vs
          = evaluate f (attribute_values.truncate a) (view b) c vs"
  shows "\<forall>ent ent' m. ent\<lparr>effects := validateEffects E (effects ent)\<rparr> = b \<longrightarrow>
           ent'\<lparr>effects := validateEffects E (effects ent')\<rparr> = b' \<longrightarrow>
           map_sum id snd (getMaxAttribute k E ent' m) = map_sum id snd (getMaxAttribute k E ent m)"
proof -
  have eb': "effects b' = effects b" and ab': "attributes b' = map (\<lambda>(k, v). if k = n then (k, change v) else (k, v)) (attributes b)"
    by (simp_all add: b')
  have keeps: "name (change v) = name v" "base (change v) = base v" "formula (change v) = formula v"
    for v using keep by simp_all
  have pb: "b\<lparr>effects := validateEffects E (effects b)\<rparr> = b" by (simp add: purged)
  have pb': "b'\<lparr>effects := validateEffects E (effects b')\<rparr> = b'" by (simp add: eb' purged)
  have facts: "attributes ent = attributes b \<and> validateEffects E (effects ent) = effects b
               \<and> ent\<lparr>effects := effects b\<rparr> = b"
    if "ent\<lparr>effects := validateEffects E (effects ent)\<rparr> = b" for ent
  proof -
    have a: "attributes ent = attributes b" using arg_cong[OF that, of attributes] by simp
    have e: "validateEffects E (effects ent) = effects b" using arg_cong[OF that, of effects] by simp
    from that[unfolded e] a e show ?thesis by simp
  qed
  have facts': "attributes ent' = attributes b' \<and> validateEffects E (effects ent') = effects b
               \<and> ent'\<lparr>effects := effects b\<rparr> = b'"
    if "ent'\<lparr>effects := validateEffects E (effects ent')\<rparr> = b'" for ent'
  proof -
    have a: "attributes ent' = attributes b'" using arg_cong[OF that, of attributes] by simp
    have e: "validateEffects E (effects ent') = effects b"
      using arg_cong[OF that, of effects] eb' by simp
    from that[unfolded e] a e show ?thesis by simp
  qed
  show ?thesis
  proof (induction k)
    case 0
    show ?case
    proof (intro allI impI)
      fix ent ent' :: entity and m
      assume A: "ent\<lparr>effects := validateEffects E (effects ent)\<rparr> = b"
        and A': "ent'\<lparr>effects := validateEffects E (effects ent')\<rparr> = b'"
      note F = facts[OF A] and F' = facts'[OF A']
      show "map_sum id snd (getMaxAttribute 0 E ent' m) = map_sum id snd (getMaxAttribute 0 E ent m)"
      proof (cases "map_of (attributes b) m")
        case None
        then show ?thesis
          using F F' by (simp add: getMaxAttribute.simps[of 0] ab' map_of_changed)
      next
        case (Some a)
        let ?a' = "if m = n then change a else a"
        obtain cur where ev: "evaluateAttribute E (effects ent) (name a) (base a) = (effects b, cur)"
          using F evaluateAttribute_fst[of E "effects ent" "name a" "base a"]
          by (cases "evaluateAttribute E (effects ent) (name a) (base a)") simp
        have ev': "evaluateAttribute E (effects ent') (name ?a') (base ?a') = (effects b, cur)"
          using ev F F' evaluateAttribute_validated[of E "effects ent'" "effects ent"]
          by (simp add: keeps)
        have fa: "formula ?a' = formula a" by (simp add: keeps)
        have ma: "map_of (attributes ent) m = Some a" using Some F by simp
        have ma': "map_of (attributes ent') m = Some ?a'" using Some F' by (simp add: ab' map_of_changed)
        show ?thesis
          using ma ma' ev ev' fa
          by (cases "formula a") (simp_all add: getMaxAttribute.simps[of 0])
      qed
    qed
  next
    case (Suc k)
    have req: "ent\<lparr>effects := validateEffects E (effects ent)\<rparr> = b \<Longrightarrow>
        ent'\<lparr>effects := validateEffects E (effects ent')\<rparr> = b' \<Longrightarrow>
        map_sum id snd (requiredValues k E ent' ms) = map_sum id snd (requiredValues k E ent ms)"
      for ent ent' ms
    proof (induction ms arbitrary: ent ent')
      case Nil
      then show ?case by simp
    next
      case (Cons r rs)
      from Suc.IH Cons.prems
      have g: "map_sum id snd (getMaxAttribute k E ent' r) = map_sum id snd (getMaxAttribute k E ent r)"
        by blast
      show ?case
      proof (cases "getMaxAttribute k E ent r")
        case (Inl err)
        with g have "getMaxAttribute k E ent' r = Inl err"
          by (cases "getMaxAttribute k E ent' r") auto
        with Inl show ?thesis by simp
      next
        case (Inr p)
        obtain e1 v where p: "p = (e1, v)" by (cases p)
        from g Inr p obtain e1' where g': "getMaxAttribute k E ent' r = Inr (e1', v)"
          by (cases "getMaxAttribute k E ent' r") auto
        from Inr p Cons.prems(1) have e1: "e1 = b"
          by (auto dest: getMaxAttribute_entity)
        from g' Cons.prems(2) have e1': "e1' = b'"
          by (auto dest: getMaxAttribute_entity)
        have "map_sum id snd (requiredValues k E e1' rs) = map_sum id snd (requiredValues k E e1 rs)"
          by (intro Cons.IH) (simp_all add: e1 e1' pb pb')
        with Inr p g' show ?thesis
          by (cases "requiredValues k E e1' rs"; cases "requiredValues k E e1 rs") auto
      qed
    qed
    show ?case
    proof (intro allI impI)
      fix ent ent' :: entity and m
      assume A: "ent\<lparr>effects := validateEffects E (effects ent)\<rparr> = b"
        and A': "ent'\<lparr>effects := validateEffects E (effects ent')\<rparr> = b'"
      note F = facts[OF A] and F' = facts'[OF A']
      show "map_sum id snd (getMaxAttribute (Suc k) E ent' m) = map_sum id snd (getMaxAttribute (Suc k) E ent m)"
      proof (cases "map_of (attributes b) m")
        case None
        then show ?thesis
          using F F' by (simp add: getMaxAttribute.simps[of "Suc k"] ab' map_of_changed)
      next
        case (Some a)
        let ?a' = "if m = n then change a else a"
        obtain cur where ev: "evaluateAttribute E (effects ent) (name a) (base a) = (effects b, cur)"
          using F evaluateAttribute_fst[of E "effects ent" "name a" "base a"]
          by (cases "evaluateAttribute E (effects ent) (name a) (base a)") simp
        have ev': "evaluateAttribute E (effects ent') (name ?a') (base ?a') = (effects b, cur)"
          using ev F F' evaluateAttribute_validated[of E "effects ent'" "effects ent"]
          by (simp add: keeps)
        have fa: "formula ?a' = formula a" by (simp add: keeps)
        have ma: "map_of (attributes ent) m = Some a" using Some F by simp
        have ma': "map_of (attributes ent') m = Some ?a'" using Some F' by (simp add: ab' map_of_changed)
        show ?thesis
        proof (cases "formula a")
          case None
          then show ?thesis
            using ma ma' ev ev' fa
            by (simp add: getMaxAttribute.simps[of "Suc k"])
        next
          case (Some f)
          have r: "map_sum id snd (requiredValues k E b' (requires f))
                 = map_sum id snd (requiredValues k E b (requires f))"
            by (intro req) (simp_all add: pb pb')
          have rb: "requiredValues k E b (requires f) = Inr (e2, vs) \<Longrightarrow> e2 = b" for e2 vs
            using requiredValues_entity[of k E b "requires f" e2 vs] pb by auto
          have rb': "requiredValues k E b' (requires f) = Inr (e2, vs) \<Longrightarrow> e2 = b'" for e2 vs
            using requiredValues_entity[of k E b' "requires f" e2 vs] pb' by auto
          have ind: "evaluate f (attribute_values.truncate ?a') (view b') c vs
                   = evaluate f (attribute_values.truncate a) (view b) c vs" for c vs
            using indep[of m a f c vs] \<open>map_of (attributes b) m = Some a\<close> Some by simp
          have L: "getMaxAttribute (Suc k) E ent m =
                (case requiredValues k E b (requires f) of Inl err \<Rightarrow> Inl err
                 | Inr (e2, vs) \<Rightarrow> Inr (e2, evaluate f (attribute_values.truncate a) (view e2) cur vs))"
            using ma ev Some F by (simp add: getMaxAttribute.simps[of "Suc k"])
          have R: "getMaxAttribute (Suc k) E ent' m =
                (case requiredValues k E b' (requires f) of Inl err \<Rightarrow> Inl err
                 | Inr (e2, vs) \<Rightarrow> Inr (e2, evaluate f (attribute_values.truncate ?a') (view e2) cur vs))"
            using ma' ev' fa Some F' by (simp add: getMaxAttribute.simps[of "Suc k"])
          show ?thesis
          proof (cases "requiredValues k E b (requires f)")
            case (Inl err)
            with r have "requiredValues k E b' (requires f) = Inl err"
              by (cases "requiredValues k E b' (requires f)") auto
            with Inl L R show ?thesis by simp
          next
            case (Inr p)
            obtain e2 vs where p: "p = (e2, vs)" by (cases p)
            with Inr have e2: "e2 = b" by (auto dest: rb)
            from r Inr p obtain e2' where R2: "requiredValues k E b' (requires f) = Inr (e2', vs)"
              by (cases "requiredValues k E b' (requires f)") auto
            then have e2': "e2' = b'" by (rule rb')
            from Inr p e2 R2 e2' L R ind show ?thesis by simp
          qed
        qed
      qed
    qed
  qed
qed


lemma emit_one_other_event: "event \<noteq> ''updateTick'' \<Longrightarrow> fst (emit_one now event e) = e"
  by (simp add: emit_one_def split: bool.splits tickInterval.splits)

lemma emit_other_event:
  assumes "event \<noteq> ''updateTick''"
  shows "fst (emit E now event effs) = validateEffects E effs"
proof -
  have "map fst (map (emit_one now event) xs) = xs" for xs
    using assms by (induction xs) (simp_all add: emit_one_other_event)
  then show ?thesis by (simp add: emit_def Let_def)
qed

lemma getMaxAttribute_change:
  fixes E :: "'d effect_class"
  assumes "\<And>v. name (change v) = name v \<and> base (change v) = base v \<and> formula (change v) = formula v"
    and "validateEffects E (effects b) = effects b"
    and "b' = b\<lparr>attributes := map (\<lambda>(k, v). if k = n then (k, change v) else (k, v)) (attributes b)\<rparr>"
    and "\<And>m a f c vs. map_of (attributes b) m = Some a \<Longrightarrow> formula a = Some f \<Longrightarrow>
        evaluate f (attribute_values.truncate (if m = n then change a else a)) (view b') c vs
          = evaluate f (attribute_values.truncate a) (view b) c vs"
    and "ent\<lparr>effects := validateEffects E (effects ent)\<rparr> = b"
    and "ent'\<lparr>effects := validateEffects E (effects ent')\<rparr> = b'"
    and "getMaxAttribute k E ent m = Inr (e1, v)"
  shows "getMaxAttribute k E ent' m = Inr (b', v)"
proof -
  have "map_sum id snd (getMaxAttribute k E ent' m) = map_sum id snd (getMaxAttribute k E ent m)"
    using getMaxAttribute_change_aux[of change E b b' n k, OF assms(1) assms(2) assms(3) assms(4)]
      assms(5,6)
    by blast
  with assms(7) obtain e1' where "getMaxAttribute k E ent' m = Inr (e1', v)"
    by (cases "getMaxAttribute k E ent' m") auto
  with assms(6) show ?thesis by (auto dest: getMaxAttribute_entity)
qed

lemmas entity_defs = getAttribute_def raiseAttribute_def lowerAttribute_def setAttributeBase_def
  update_attribute_def emit_entity_def emit_def emit_one_def evaluateAttribute_def
  raise_def lower_def setBase_def or_num_def Let_def attribute_values.truncate_def
  js_plus_def js_minus_def getMaxAttribute.simps

text \<open>
  C4, as stated, fails in its last part, in two ways. \<^verbatim>\<open>getMaxAttribute\<close> hands the
  attribute itself to the formula, and a formula that reads the attribute's delta moves
  the maximum when the delta moves: \<^verbatim>\<open>rage\<close> is 10 and, raised by 5, it is 20, not 15.
  And the sums are sums of doubles: \<^verbatim>\<open>mass\<close> is \<open>2 ^ 53\<close> and, raised by 1, it is still
  \<open>2 ^ 53\<close>.
\<close>

theorem raise_not_exactly_amount:
  "getAttribute 1 (plain_class :: unit effect_class) berserk ''rage'' = Inr (berserk, 10) \<and>
   raiseAttribute 1 (plain_class :: unit effect_class) 0 berserk ''rage'' 5 = Inr enraged \<and>
   getAttribute 1 (plain_class :: unit effect_class) enraged ''rage'' = Inr (enraged, 20) \<and>
   getAttribute 1 (plain_class :: unit effect_class) giant ''mass''
     = Inr (giant, 9007199254740992) \<and>
   raiseAttribute 1 (plain_class :: unit effect_class) 0 giant ''mass'' 1 = Inr giant_raised \<and>
   getAttribute 1 (plain_class :: unit effect_class) giant_raised ''mass''
     = Inr (giant_raised, 9007199254740992)"
  by (simp add: entity_defs enraged_def berserk_def rage_formula_def giant_raised_def giant_def
        plain_class_def to_double_above_2_53)

text \<open>
  C4, amended. In a state reached by any sequence of \<^verbatim>\<open>raiseAttribute\<close>,
  \<^verbatim>\<open>lowerAttribute\<close> and \<^verbatim>\<open>setAttributeBase\<close> calls, for every attribute the entity has:
  \<^verbatim>\<open>getAttribute\<close> is the double sum of \<^verbatim>\<open>getMaxAttribute\<close> and the attribute's delta (and
  raises what \<^verbatim>\<open>getMaxAttribute\<close> raises). And when no formula of the entity's attributes
  depends on the delta of the attribute, read from the attribute or from the entity
  the formula is handed, and each of the three sums involved is exact (the new delta,
  the value before and the value after: not rounded, no overflow), \<^verbatim>\<open>raiseAttribute\<close> by
  an amount increases the value \<^verbatim>\<open>getAttribute\<close> returns by exactly that amount.
\<close>

theorem getAttribute_max_plus_delta:
  fixes E :: "'d effect_class"
  assumes "calls fuel E now ent0 cs = Inr ent"
    and has: "map_of (attributes ent) attrName = Some attr"
  shows "getAttribute fuel E ent attrName =
           (case getMaxAttribute fuel E ent attrName of
              Inl err \<Rightarrow> Inl err
            | Inr (ent', m) \<Rightarrow> Inr (ent', js_plus m (delta attr))) \<and>
         ((\<forall>k a f g c vs effs. map_of (attributes ent) k = Some a \<longrightarrow> formula a = Some f \<longrightarrow>
              evaluate f (attribute_values.truncate (if k = attrName then a\<lparr>delta := g (delta a)\<rparr> else a))
                         (view (map_delta attrName g (ent\<lparr>effects := effs\<rparr>))) c vs
                = evaluate f (attribute_values.truncate a) (view (ent\<lparr>effects := effs\<rparr>)) c vs) \<longrightarrow>
          (\<forall>ent1 m. getMaxAttribute fuel E ent attrName = Inr (ent1, m) \<longrightarrow>
             exact_sum (delta attr) amount \<longrightarrow>
             exact_sum m (delta attr) \<longrightarrow>
             exact_sum m (delta attr + amount) \<longrightarrow>
             (\<exists>ent2 ent3. getAttribute fuel E ent attrName = Inr (ent1, m + delta attr) \<and>
                           raiseAttribute fuel E now ent attrName amount = Inr ent2 \<and>
                           getAttribute fuel E ent2 attrName = Inr (ent3, m + delta attr + amount))))"
proof (intro conjI impI allI)
  show "getAttribute fuel E ent attrName =
           (case getMaxAttribute fuel E ent attrName of
              Inl err \<Rightarrow> Inl err
            | Inr (ent', m) \<Rightarrow> Inr (ent', js_plus m (delta attr)))"
    by (simp add: getAttribute_def has)
next
  fix ent1 m
  assume indep: "\<forall>k a f g c vs effs. map_of (attributes ent) k = Some a \<longrightarrow> formula a = Some f \<longrightarrow>
              evaluate f (attribute_values.truncate (if k = attrName then a\<lparr>delta := g (delta a)\<rparr> else a))
                         (view (map_delta attrName g (ent\<lparr>effects := effs\<rparr>))) c vs
                = evaluate f (attribute_values.truncate a) (view (ent\<lparr>effects := effs\<rparr>)) c vs"
    and max: "getMaxAttribute fuel E ent attrName = Inr (ent1, m)"
    and "exact_sum (delta attr) amount"
    and "exact_sum m (delta attr)"
    and "exact_sum m (delta attr + amount)"
  then have x1: "js_plus (delta attr) amount = delta attr + amount"
    and x2: "js_plus m (delta attr) = m + delta attr"
    and x3: "js_plus m (delta attr + amount) = m + delta attr + amount"
    by (simp_all add: exact_sum_def)
  let ?g = "\<lambda>d. js_plus d amount"
  let ?change = "\<lambda>a::attribute. a\<lparr>delta := js_plus (delta a) amount\<rparr>"
  let ?V = "validateEffects E (effects ent)"
  let ?b = "ent\<lparr>effects := ?V\<rparr>"
  let ?entr = "ent\<lparr>attributes := map (\<lambda>(k, v). if k = attrName then (k, ?change v) else (k, v))
                                     (attributes ent)\<rparr>"
  let ?b' = "?b\<lparr>attributes := map (\<lambda>(k, v). if k = attrName then (k, ?change v) else (k, v))
                                     (attributes ?b)\<rparr>"
  have keep: "name (?change a) = name a \<and> base (?change a) = base a \<and> formula (?change a) = formula a" for a
    by simp
  have purged: "validateEffects E (effects ?b) = effects ?b"
    by (simp add: validateEffects_idem)
  have md: "map_delta attrName ?g ?b = ?b'"
    by (simp add: map_delta_def)
  have ind: "map_of (attributes ?b) k = Some a \<Longrightarrow> formula a = Some f \<Longrightarrow>
        evaluate f (attribute_values.truncate (if k = attrName then ?change a else a)) (view ?b') c vs
          = evaluate f (attribute_values.truncate a) (view ?b) c vs" for k a f c vs
    using indep[rule_format, of k a f ?g ?V c vs] by (simp add: md)
  have pr: "?entr\<lparr>effects := validateEffects E (effects ?entr)\<rparr> = ?b'" by simp
  have p2: "?b'\<lparr>effects := validateEffects E (effects ?b')\<rparr> = ?b'"
    by (simp add: validateEffects_idem)
  have max_r: "getMaxAttribute fuel E ?entr attrName = Inr (?b', m)"
    by (rule getMaxAttribute_change[of ?change E ?b ?b' attrName ent ?entr fuel attrName ent1 m,
          OF keep purged refl ind refl pr max])
  have max_2: "getMaxAttribute fuel E ?b' attrName = Inr (?b', m)"
    by (rule getMaxAttribute_change[of ?change E ?b ?b' attrName ent ?b' fuel attrName ent1 m,
          OF keep purged refl ind refl p2 max])
  have has_r: "map_of (map (\<lambda>(k, v). if k = attrName then (k, ?change v) else (k, v)) (attributes ent))
                 attrName = Some (?change attr)"
    by (simp add: map_of_changed has)
  have val: "js_plus m (delta (?change attr)) = m + delta attr + amount"
    by (simp add: x1 x3)
  have get_r: "getAttribute fuel E ?entr attrName = Inr (?b', m + delta attr + amount)"
    using max_r has_r val by (simp add: getAttribute_def)
  have emit2: "emit_entity E now ''attributeUpdate'' ?b' = ?b'"
    by (simp add: emit_entity_def emit_other_event validateEffects_idem)
  have raised: "raiseAttribute fuel E now ent attrName amount = Inr ?b'"
    unfolding raiseAttribute_def update_attribute_def raise_def
    using get_r emit2 has by (simp add: Let_def)
  have get_2: "getAttribute fuel E ?b' attrName = Inr (?b', m + delta attr + amount)"
    using max_2 has_r val by (simp add: getAttribute_def)
  have get_0: "getAttribute fuel E ent attrName = Inr (ent1, m + delta attr)"
    using max has x2 by (simp add: getAttribute_def)
  from get_0 raised get_2
  show "\<exists>ent2 ent3. getAttribute fuel E ent attrName = Inr (ent1, m + delta attr) \<and>
                           raiseAttribute fuel E now ent attrName amount = Inr ent2 \<and>
                           getAttribute fuel E ent2 attrName = Inr (ent3, m + delta attr + amount)"
    by blast
qed


theorem getAttribute_max_plus_delta_witness:
  "calls 3 (plain_class :: unit effect_class) 0 hero [Lower ''health'' 5, SetBase ''health'' 120]
     = Inr wounded \<and>
   getMaxAttribute 3 (plain_class :: unit effect_class) wounded ''power'' = Inr (wounded, 125) \<and>
   (\<exists>ent2 ent3.
      getAttribute 3 (plain_class :: unit effect_class) wounded ''power'' = Inr (wounded, 125) \<and>
      raiseAttribute 3 (plain_class :: unit effect_class) 0 wounded ''power'' 10 = Inr ent2 \<and>
      getAttribute 3 (plain_class :: unit effect_class) ent2 ''power'' = Inr (ent3, 135))"
proof -
  let ?E = "plain_class :: unit effect_class"
  have reach: "calls 3 ?E 0 hero [Lower ''health'' 5, SetBase ''health'' 120] = Inr wounded"
    by (simp add: entity_defs wounded_def hero_def plain_class_def poison_def aura_def)
  have has:
    "map_of (attributes wounded) ''power''
       = Some \<lparr>name = ''power'', base = 5, delta = 0, formula = Some power_formula\<rparr>"
    by (simp add: wounded_def)
  have indep: "\<forall>k a f g c vs effs. map_of (attributes wounded) k = Some a \<longrightarrow> formula a = Some f \<longrightarrow>
      evaluate f (attribute_values.truncate (if k = ''power'' then a\<lparr>delta := g (delta a)\<rparr> else a))
                 (view (map_delta ''power'' g (wounded\<lparr>effects := effs\<rparr>))) c vs
        = evaluate f (attribute_values.truncate a) (view (wounded\<lparr>effects := effs\<rparr>)) c vs"
    by (auto simp: wounded_def power_formula_def split: if_splits)
  have max: "getMaxAttribute 3 ?E wounded ''power'' = Inr (wounded, 125)"
    by (simp add: entity_defs eval_nat_numeral wounded_def hero_def power_formula_def
          plain_class_def poison_def aura_def)
  have x: "exact_sum 0 10" "exact_sum 125 0" "exact_sum 125 (0 + 10)"
    by (simp_all add: exact_sum_def js_plus_def max_double_def)
  from getAttribute_max_plus_delta [OF reach has, of 10] indep max x reach
  show ?thesis by (simp add: js_plus_def)
qed

section \<open>Serialize and hydrate\<close>

text \<open>Lists built by \<^verbatim>\<open>add\<close> are well stacked.\<close>

lemma deep_clone_same: "deep_clone s = s"
  by (simp add: deep_clone_def)

lemma add_scan_None_iff:
  "add_scan e effs = None \<longleftrightarrow>
     (\<forall>a\<in>set effs. type (config a) = type (config e) \<longrightarrow> \<not> fires a)"
  by (induction effs) (auto simp: fires_def)

lemma add_scan_types:
  "add_scan e effs = Some (r, effs') \<Longrightarrow>
     map (\<lambda>a. type (config a)) effs' = map (\<lambda>a. type (config a)) effs"
  by (induction effs arbitrary: effs') (auto simp: stack_added_def split: if_splits)

lemma well_stacked_filter: "well_stacked effs \<Longrightarrow> well_stacked (filter p effs)"
  by (induction effs) (auto simp: list_all_iff)

lemma well_stacked_snoc:
  "well_stacked (effs @ [e]) \<longleftrightarrow>
     well_stacked effs \<and> (\<forall>a\<in>set effs. fires a \<longrightarrow> type (config a) \<noteq> type (config e))"
  by (induction effs) (auto simp: list_all_iff)

lemma list_all_other_type:
  "list_all (\<lambda>m. type (config m) \<noteq> t) xs \<longleftrightarrow> t \<notin> set (map (\<lambda>a. type (config a)) xs)"
  by (induction xs) auto

lemma add_scan_well_stacked:
  "add_scan e effs = Some (r, effs') \<Longrightarrow> well_stacked effs \<Longrightarrow> well_stacked effs'"
proof (induction effs arbitrary: effs')
  case Nil
  then show ?case by simp
next
  case (Cons a rest)
  show ?case
  proof (cases "type (config e) = type (config a) \<and> fires a")
    case True
    with Cons.prems have "effs' = stack_added a # rest \<or> effs' = a # rest"
      by (auto simp: fires_def split: if_splits)
    moreover from True Cons.prems(2)
    have "list_all (\<lambda>m. type (config m) \<noteq> type (config a)) rest" and "well_stacked rest"
      by auto
    ultimately show ?thesis
      by (auto simp: stack_added_def)
  next
    case False
    with Cons.prems(1) obtain rest' where
      r: "add_scan e rest = Some (r, rest')" and e: "effs' = a # rest'"
      by (auto simp: fires_def split: if_splits)
    from r Cons.prems(2) have w: "well_stacked rest'" by (auto intro: Cons.IH)
    have "list_all (\<lambda>m. type (config m) \<noteq> type (config a)) rest'
             = list_all (\<lambda>m. type (config m) \<noteq> type (config a)) rest"
      by (simp only: list_all_other_type add_scan_types[OF r])
    with w Cons.prems(2) e show ?thesis by simp
  qed
qed

lemma add_well_stacked:
  assumes "add E tgt e effs = Inr (r, effs')" and "well_stacked effs"
  shows "well_stacked effs'"
proof (cases "add_scan (e\<lparr>state := deep_clone (state e)\<rparr>) effs")
  case None
  with assms(1) have effs': "effs' = validateEffects E (effs @ [e\<lparr>state := deep_clone (state e), target := Some tgt\<rparr>])"
    by (auto simp: add_def Let_def split: if_splits)
  from None have "\<forall>a\<in>set effs. fires a \<longrightarrow> type (config a) \<noteq> type (config e)"
    by (auto simp: add_scan_None_iff)
  with assms(2) have "well_stacked (effs @ [e\<lparr>state := deep_clone (state e), target := Some tgt\<rparr>])"
    by (simp add: well_stacked_snoc)
  then have "well_stacked (filter (isCurrent E)
      (effs @ [e\<lparr>state := deep_clone (state e), target := Some tgt\<rparr>]))"
    by (rule well_stacked_filter)
  then show ?thesis
    by (simp only: effs' validateEffects_filter)
next
  case (Some p)
  with assms(1) have "add_scan (e\<lparr>state := deep_clone (state e)\<rparr>) effs = Some (r, effs')"
    by (auto simp: add_def Let_def split: if_splits)
  then show ?thesis using assms(2) by (rule add_scan_well_stacked)
qed


lemma well_stacked_map:
  assumes "\<And>a. type (config (f a)) = type (config a)" and "\<And>a. fires (f a) = fires a"
  shows "well_stacked (map f xs) = well_stacked xs"
  by (induction xs) (simp_all add: assms list_all_iff)

lemma emit_one_fires:
  "fires (fst (emit_one now event e)) = fires e"
  by (auto simp: emit_one_def fires_def stack_cond_def Let_def split: bool.splits tickInterval.splits)

lemma emit_well_stacked:
  assumes "well_stacked effs"
  shows "well_stacked (fst (emit E now event effs))"
proof -
  have v: "well_stacked (validateEffects E effs)"
    using assms by (simp add: validateEffects_filter well_stacked_filter)
  have "well_stacked (map (\<lambda>a. fst (emit_one now event a)) (validateEffects E effs))"
    using v by (simp add: well_stacked_map emit_one_keeps_config emit_one_fires)
  with v show ?thesis by (simp add: emit_def Let_def comp_def)
qed

lemma map_of_add_attribute: "map_of (add_attribute a l) = (map_of l)(name a \<mapsto> a)"
  by (induction l) (auto simp: fun_eq_iff)

lemma hydrate_attributes_serialized:
  assumes "distinct (map fst attrs)" and "\<forall>k\<in>set (map fst attrs). registry k \<noteq> None"
  shows "\<exists>attrs'. hydrate_attributes registry (serialize_attributes attrs) acc = Inr attrs' \<and>
           (\<forall>n. map_of attrs' n =
                  (case map_of attrs n of
                     Some a \<Rightarrow> Some (create_attribute registry n (base a) (delta a))
                   | None \<Rightarrow> map_of acc n))"
  using assms
proof (induction attrs arbitrary: acc)
  case Nil
  then show ?case by (simp add: serialize_attributes_def)
next
  case (Cons p attrs)
  obtain k a where p: "p = (k, a)" by (cases p)
  let ?acc = "add_attribute (create_attribute registry k (base a) (delta a)) acc"
  from Cons.prems have d: "distinct (map fst attrs)" and r: "\<forall>k\<in>set (map fst attrs). registry k \<noteq> None"
    and k: "registry k \<noteq> None" and nk: "map_of attrs k = None"
    by (auto simp: p map_of_eq_None_iff)
  from Cons.IH[OF d r, of ?acc] obtain attrs' where
    h: "hydrate_attributes registry (serialize_attributes attrs) ?acc = Inr attrs'" and
    m: "\<forall>n. map_of attrs' n =
                  (case map_of attrs n of
                     Some a \<Rightarrow> Some (create_attribute registry n (base a) (delta a))
                   | None \<Rightarrow> map_of ?acc n)"
    by blast
  have "hydrate_attributes registry (serialize_attributes (p # attrs)) acc = Inr attrs'"
    using h k by (simp add: p serialize_attributes_def or_num_def)
  moreover have "map_of attrs' n =
                  (case map_of (p # attrs) n of
                     Some a \<Rightarrow> Some (create_attribute registry n (base a) (delta a))
                   | None \<Rightarrow> map_of acc n)" for n
    using m nk by (auto simp: p map_of_add_attribute create_attribute_def split: option.splits)
  ultimately show ?case by blast
qed

lemma fires_same:
  "config a' = config a \<Longrightarrow> state a' = state a \<Longrightarrow> fires a' = fires a"
  by (simp add: fires_def stack_cond_def)

lemma hydrate_roundtrip_aux:
  assumes "\<forall>e\<in>set L. \<exists>d. registry (effect_id e) = Some d \<and> config d = config e"
    and "\<forall>e\<in>set L. isCurrent E e"
    and det: "\<forall>e e'. effect_id e' = effect_id e \<and> config e' = config e \<and> state e' = state e
               \<longrightarrow> isCurrent E e' = isCurrent E e"
    and "\<forall>a\<in>set acc. isCurrent E a"
    and "\<forall>e\<in>set L. \<forall>a\<in>set acc. type (config a) = type (config e) \<longrightarrow> \<not> fires a"
    and "well_stacked L"
  shows "\<exists>L'. hydrate E registry tgt (map serialize_effect L) acc = Inr (acc @ L') \<and>
           map (\<lambda>e. (effect_id e, config e, state e)) L'
             = map (\<lambda>e. (effect_id e, config e, state e)) L \<and>
           (\<forall>e\<in>set L'. target e = Some tgt)"
  using assms(1,2,4,5,6)
proof (induction L arbitrary: acc)
  case Nil
  then show ?case by simp
next
  case (Cons e L)
  from Cons.prems(1) obtain d where d: "registry (effect_id e) = Some d" "config d = config e"
    by auto
  let ?new = "d\<lparr>effect_id := effect_id e, state := state e, target := Some tgt\<rparr>"
  let ?fresh = "hydrate_effect (d\<lparr>effect_id := effect_id e, target := None\<rparr>) (serialize_effect e)"
  have fresh: "?fresh\<lparr>state := deep_clone (state ?fresh)\<rparr> = d\<lparr>effect_id := effect_id e, state := state e, target := None\<rparr>"
    by (simp add: hydrate_effect_def serialize_effect_def deep_clone_same)
  have scan: "add_scan (d\<lparr>effect_id := effect_id e, state := state e, target := None\<rparr>) acc = None"
    using Cons.prems(4) d by (simp add: add_scan_None_iff)
  have cur_new: "isCurrent E ?new"
    using det[rule_format, of ?new e] Cons.prems(2) d by simp
  have valid: "validateEffects E (acc @ [?new]) = acc @ [?new]"
    using Cons.prems(3) cur_new by (simp add: validateEffects_filter)
  have added: "add E tgt ?fresh acc = Inr (True, acc @ [?new])"
  proof -
    have tf: "target ?fresh = None" by (simp add: hydrate_effect_def)
    have n: "d\<lparr>effect_id := effect_id e, state := state e, target := None, target := Some tgt\<rparr> = ?new"
      by simp
    show ?thesis
      unfolding add_def Let_def fresh
      using tf scan valid n by simp
  qed
  have fires_new: "fires ?new = fires e"
    using d by (intro fires_same) simp_all
  have IH: "\<exists>L'. hydrate E registry tgt (map serialize_effect L) (acc @ [?new]) = Inr ((acc @ [?new]) @ L') \<and>
           map (\<lambda>e. (effect_id e, config e, state e)) L'
             = map (\<lambda>e. (effect_id e, config e, state e)) L \<and>
           (\<forall>e\<in>set L'. target e = Some tgt)"
  proof (rule Cons.IH)
    show "\<forall>e\<in>set L. \<exists>d. registry (effect_id e) = Some d \<and> config d = config e"
      using Cons.prems(1) by simp
    show "\<forall>e\<in>set L. isCurrent E e" using Cons.prems(2) by simp
    show "\<forall>a\<in>set (acc @ [?new]). isCurrent E a" using Cons.prems(3) cur_new by simp
    show "well_stacked L" using Cons.prems(5) by simp
    show "\<forall>e'\<in>set L. \<forall>a\<in>set (acc @ [?new]). type (config a) = type (config e') \<longrightarrow> \<not> fires a"
      using Cons.prems(4,5) fires_new d by (auto simp: list_all_iff)
  qed
  then obtain L' where
    h: "hydrate E registry tgt (map serialize_effect L) (acc @ [?new]) = Inr ((acc @ [?new]) @ L')" and
    m: "map (\<lambda>e. (effect_id e, config e, state e)) L' = map (\<lambda>e. (effect_id e, config e, state e)) L" and
    t: "\<forall>e\<in>set L'. target e = Some tgt"
    by blast
  have "hydrate E registry tgt (map serialize_effect (e # L)) acc = Inr (acc @ (?new # L'))"
    using h added d by (simp add: create_effect_def serialize_effect_def)
  moreover have "map (\<lambda>e. (effect_id e, config e, state e)) (?new # L')
       = map (\<lambda>e. (effect_id e, config e, state e)) (e # L)"
    using m d by simp
  moreover have "\<forall>x\<in>set (?new # L'). target x = Some tgt" using t by simp
  ultimately show ?case by blast
qed


text \<open>
  C3, as stated, fails: \<^verbatim>\<open>EffectableEntity.hydrate(state, serialized)\<close> never reads
  \<^verbatim>\<open>serialized\<close>. A fresh entity of the same definition, hydrated with the data the first
  entity serialized to, has the attributes of the definition (\<^verbatim>\<open>health\<close> with delta 0,
  not the serialized \<open>- 20\<close>) and none of the serialized effects.
\<close>

theorem hydrate_ignores_serialized:
  "snd (serialize_entity (plain_class :: unit effect_class) hero) = saved \<and>
   data_effects saved = [serialize_effect (poison\<lparr>target := Some 7\<rparr>)] \<and>
   map_of (attributes hero) ''health''
     = Some \<lparr>name = ''health'', base = 100, delta = - 20, formula = None\<rparr> \<and>
   hydrate_entity (plain_class :: unit effect_class) world (construct 9 hero_definition) saved
     = Inr recruit \<and>
   map_of (attributes recruit) ''health''
     = Some \<lparr>name = ''health'', base = 100, delta = 0, formula = None\<rparr> \<and>
   effects recruit = []"
  by (simp add: serialize_entity_def serialize_def serialize_effect_def serialize_attributes_def
        hydrate_entity_def construct_def saved_def recruit_def hero_definition_def hero_def
        world_def create_attribute_def or_num_def plain_class_def poison_def aura_def)

text \<open>
  C3, amended. Serialize an entity and hydrate a fresh entity constructed from the
  serialized data (the constructor is where an entity takes its data from; what is
  passed to \<^verbatim>\<open>hydrate\<close> is not read), against the same registries. Provided that the entity
  has one attribute per name and the attribute registry knows the names, that the
  persistent effects were created from the effect registry (their config is their
  definition's), that whether an effect is current is decided by its id, config and
  state, and that the list is well stacked, as the lists \<^verbatim>\<open>add\<close> builds are: hydration
  succeeds; every attribute name has the same (base, delta) as before; the effects are,
  in order, the current effects with \<^verbatim>\<open>persists\<close> of the original, equal to them in id,
  config and state; and no effect without \<^verbatim>\<open>persists\<close> is in the serialized data or in
  the hydrated entity.
\<close>

theorem serialize_hydrate_roundtrip:
  fixes E :: "'d effect_class"
  assumes attrs_distinct: "distinct (map fst (attributes ent))"
    and attrs_known: "\<forall>k\<in>set (map fst (attributes ent)). AttributeFactory gs k \<noteq> None"
    and effs_defined: "\<forall>e\<in>set (effects ent). isCurrent E e \<and> persists (config e) \<longrightarrow>
          (\<exists>d. EffectFactory gs (effect_id e) = Some d \<and> config d = config e)"
    and current_by_state: "\<forall>e e'. effect_id e' = effect_id e \<and> config e' = config e \<and> state e' = state e
          \<longrightarrow> isCurrent E e' = isCurrent E e"
    and stacked: "well_stacked (effects ent)"
  shows "\<exists>ent'. hydrate_entity E gs (construct r (snd (serialize_entity E ent))) serialized = Inr ent' \<and>
           (\<forall>n. map_option (\<lambda>a. (base a, delta a)) (map_of (attributes ent') n)
                  = map_option (\<lambda>a. (base a, delta a)) (map_of (attributes ent) n)) \<and>
           map (\<lambda>e. (effect_id e, config e, state e)) (effects ent')
             = map (\<lambda>e. (effect_id e, config e, state e))
                 (filter (\<lambda>e. persists (config e)) (validateEffects E (effects ent))) \<and>
           (\<forall>e\<in>set (effects ent'). persists (config e)) \<and>
           (\<forall>d\<in>set (data_effects (snd (serialize_entity E ent))).
              \<exists>e\<in>set (effects ent). persists (config e) \<and> d = serialize_effect e)"
proof -
  let ?L = "filter (\<lambda>e. persists (config e)) (validateEffects E (effects ent))"
  let ?data = "snd (serialize_entity E ent)"
  let ?key = "\<lambda>e. (effect_id e, config e, state e)"
  have data: "?data = \<lparr>data_attributes = serialize_attributes (attributes ent),
                        data_effects = map serialize_effect ?L\<rparr>"
    by (simp add: serialize_entity_def serialize_def Let_def)
  from hydrate_attributes_serialized[OF attrs_distinct attrs_known, of "[]"]
  obtain attrs' where
    ha: "hydrate_attributes (AttributeFactory gs) (serialize_attributes (attributes ent)) [] = Inr attrs'" and
    ma: "\<forall>n. map_of attrs' n =
           (case map_of (attributes ent) n of
              Some a \<Rightarrow> Some (create_attribute (AttributeFactory gs) n (base a) (delta a))
            | None \<Rightarrow> map_of [] n)"
    by blast
  have "\<exists>L'. hydrate E (EffectFactory gs) r (map serialize_effect ?L) [] = Inr ([] @ L') \<and>
           map ?key L' = map ?key ?L \<and> (\<forall>e\<in>set L'. target e = Some r)"
  proof (rule hydrate_roundtrip_aux)
    show "\<forall>e\<in>set ?L. \<exists>d. EffectFactory gs (effect_id e) = Some d \<and> config d = config e"
      using effs_defined by (auto simp: validateEffects_filter)
    show "\<forall>e\<in>set ?L. isCurrent E e" by (simp add: validateEffects_filter)
    show "\<forall>e e'. effect_id e' = effect_id e \<and> config e' = config e \<and> state e' = state e
          \<longrightarrow> isCurrent E e' = isCurrent E e"
      by (rule current_by_state)
    show "\<forall>a\<in>set []. isCurrent E a" by simp
    show "\<forall>e\<in>set ?L. \<forall>a\<in>set []. type (config a) = type (config e) \<longrightarrow> \<not> fires a" by simp
    show "well_stacked ?L"
      using stacked by (simp add: validateEffects_filter well_stacked_filter)
  qed
  then obtain L' where
    he: "hydrate E (EffectFactory gs) r (map serialize_effect ?L) [] = Inr L'" and
    me: "map ?key L' = map ?key ?L"
    by auto
  let ?ent' = "(construct r ?data)\<lparr>attributes := attrs', effects := L', raw_effects := [], hydrated := True\<rparr>"
  have "hydrate_entity E gs (construct r ?data) serialized = Inr ?ent'"
    using ha he by (simp add: hydrate_entity_def construct_def data)
  moreover have "map_option (\<lambda>a. (base a, delta a)) (map_of (attributes ?ent') n)
                  = map_option (\<lambda>a. (base a, delta a)) (map_of (attributes ent) n)" for n
    using ma by (simp add: create_attribute_def split: option.splits)
  moreover have "map ?key (effects ?ent') = map ?key ?L"
    using me by simp
  moreover have "\<forall>e\<in>set (effects ?ent'). persists (config e)"
  proof
    fix e assume "e \<in> set (effects ?ent')"
    then have "?key e \<in> set (map ?key L')" by simp
    with me have "?key e \<in> set (map ?key ?L)" by simp
    then show "persists (config e)" by auto
  qed
  moreover have "\<forall>d\<in>set (data_effects ?data).
              \<exists>e\<in>set (effects ent). persists (config e) \<and> d = serialize_effect e"
    by (auto simp: data validateEffects_filter)
  ultimately show ?thesis by blast
qed


theorem serialize_hydrate_roundtrip_witness:
  "snd (serialize_entity (plain_class :: unit effect_class) hero) = saved \<and>
   hydrate_entity (plain_class :: unit effect_class) world (construct 9 saved) saved = Inr revived \<and>
   map (\<lambda>e. (effect_id e, config e, state e)) (effects revived)
     = map (\<lambda>e. (effect_id e, config e, state e))
         (filter (\<lambda>e. persists (config e))
            (validateEffects (plain_class :: unit effect_class) (effects hero)))"
proof -
  let ?E = "plain_class :: unit effect_class"
  have h1: "distinct (map fst (attributes hero))"
    by (simp add: hero_def)
  have h2: "\<forall>k\<in>set (map fst (attributes hero)). AttributeFactory world k \<noteq> None"
    by (simp add: hero_def world_def)
  have h3: "\<forall>e\<in>set (effects hero). isCurrent ?E e \<and> persists (config e) \<longrightarrow>
          (\<exists>d. EffectFactory world (effect_id e) = Some d \<and> config d = config e)"
    by (simp add: hero_def world_def poison_def aura_def)
  have h4: "\<forall>e e'. effect_id e' = effect_id e \<and> config e' = config e \<and> state e' = state e
          \<longrightarrow> isCurrent ?E e' = isCurrent ?E e"
    by (simp add: plain_class_def)
  have h5: "well_stacked (effects hero)"
    by (simp add: hero_def poison_def aura_def)
  have ev1: "snd (serialize_entity ?E hero) = saved"
    by (simp add: serialize_entity_def serialize_def serialize_effect_def serialize_attributes_def
          saved_def hero_def plain_class_def poison_def aura_def)
  have ev2: "hydrate_entity ?E world (construct 9 saved) saved = Inr revived"
    by (simp add: hydrate_entity_def construct_def saved_def revived_def world_def
          create_attribute_def or_num_def create_effect_def hydrate_effect_def
          add_def deep_clone_def plain_class_def poison_def aura_def)
  from serialize_hydrate_roundtrip [OF h1 h2 h3 h4 h5, of 9 saved] ev1 ev2
  show ?thesis by auto
qed

end
